theory Spec2Isabelle
  imports Complex_Main
begin

section \<open>JavaScript values shared by the modules\<close>

text \<open>
  Exceptions are values: \<open>Error msg\<close> is \<^verbatim>\<open>new Error(msg)\<close>, \<open>TypeError msg\<close> is the
  exception the runtime raises when a property of \<^verbatim>\<open>null\<close> is read. \<open>error_toString\<close>
  is what a template literal \<^verbatim>\<open>${ex}\<close> prints.
\<close>

datatype js_error = Error string | TypeError string

fun error_toString :: "js_error \<Rightarrow> string" where
  "error_toString (Error m) = ''Error: '' @ m"
| "error_toString (TypeError m) = ''TypeError: '' @ m"

text \<open>
  The object \<^verbatim>\<open>getJob()\<close> returns: the values of a job, no functions. A missing
  \<^verbatim>\<open>fileUuid\<close> reads as \<^verbatim>\<open>false\<close> and the times are \<^verbatim>\<open>null\<close> until the job has started;
  both are \<open>None\<close> here.
\<close>

record job_snapshot =
  snap_botUuid :: string
  snap_uuid :: string
  snap_state :: string
  snap_fileUuid :: "string option"
  snap_started :: "nat option"
  snap_elapsed :: "nat option"
  snap_percentComplete :: nat

text \<open>
  The logger is written to only; the model keeps the lines in the order they are written.
  \<open>LogInfoJob\<close> is \<^verbatim>\<open>logger.info(message, job)\<close>, a message with a job's values.
\<close>

datatype log_entry = LogInfo string | LogDebug string | LogError string | LogInfoJob string job_snapshot

text \<open>The payload of a \<^verbatim>\<open>jobEvent\<close> sent over the socket \<^verbatim>\<open>app.io\<close>.\<close>

record jobEvent =
  je_uuid :: string
  je_event :: string
  je_data :: "job_snapshot option"

section \<open>The state machine library, as the table lookup the code relies on\<close>

text \<open>
  \<^verbatim>\<open>StateMachine.create({initial, events, error, callbacks})\<close>: an event is
  \<^verbatim>\<open>{name, from, to}\<close> where \<^verbatim>\<open>from\<close> is a state or an array of states. Firing an event
  whose table has no entry for the current state calls the \<^verbatim>\<open>error\<close> handler; otherwise
  \<^verbatim>\<open>current\<close> becomes \<^verbatim>\<open>to\<close>. A later entry for the same name and state overwrites
  an earlier one, hence the lookup from the end of the list.
\<close>

record fsm_event =
  ev_name :: string
  ev_from :: "string list"
  ev_to :: string

record fsm =
  current :: string
  events :: "fsm_event list"

definition fsm_target :: "fsm_event list \<Rightarrow> string \<Rightarrow> string \<Rightarrow> string option" where
  "fsm_target evs n cur =
     map_option ev_to (find (\<lambda>e. ev_name e = n \<and> cur \<in> set (ev_from e)) (rev evs))"

section \<open>server/middleware/jobs/job.js\<close>

text \<open>
  \<^verbatim>\<open>timer-stopwatch\<close>: \<^verbatim>\<open>start()\<close> and \<^verbatim>\<open>stop()\<close> switch the ticking on and off, and
  \<^verbatim>\<open>ms\<close> is the elapsed time read by \<^verbatim>\<open>getJob\<close>. \<^verbatim>\<open>start()\<close> also updates \<^verbatim>\<open>ms\<close>
  from the clock, to the reading \<open>t\<close>, and emits \<^verbatim>\<open>time\<close> before it returns, which runs
  the handler the job has registered with \<^verbatim>\<open>onTime\<close> (\<open>onTime\<close> below).
\<close>

record stopwatch =
  ticking :: bool
  ms :: nat


definition stopwatch_stop :: "stopwatch \<Rightarrow> stopwatch" where
  "stopwatch_stop w = w\<lparr>ticking := False\<rparr>"

text \<open>
  The fields a \<^verbatim>\<open>Job\<close> has after \<^verbatim>\<open>initialize()\<close>. \<open>job_log\<close> holds the lines this job
  writes to the global \<^verbatim>\<open>logger\<close>. \<^verbatim>\<open>undefined\<close> is \<open>None\<close>.
\<close>

record job =
  botUuid :: string
  fileUuid :: "string option"
  uuid :: string
  job_fsm :: fsm
  job_stopwatch :: stopwatch
  started :: "nat option"
  elapsed :: "nat option"
  percentComplete :: nat
  job_log :: "log_entry list"

text \<open>
  \<^verbatim>\<open>react/modules/Jobs/jobFsmDefinitions\<close> is required by job.js and is not among the
  sources; the functions take it as a parameter.
\<close>

record jobFsmDefs =
  fsmEvents :: "fsm_event list"
  processingJob :: "string list"

text \<open>
  Modelled from the spec: the table \<^verbatim>\<open>jobFsmDefinitions\<close> (missing from the sources), from
  the transitions of the job state machine the specification lists: initializationDone,
  start, pause, resume, cancel from the processing states, completeJob; the processing
  states are running and paused.
\<close>

definition jobFsmDefinitions :: jobFsmDefs where
  "jobFsmDefinitions = \<lparr>
     fsmEvents = [
       \<lparr>ev_name = ''initializationDone'', ev_from = [''initializing''], ev_to = ''ready''\<rparr>,
       \<lparr>ev_name = ''start'', ev_from = [''ready''], ev_to = ''running''\<rparr>,
       \<lparr>ev_name = ''pause'', ev_from = [''running''], ev_to = ''paused''\<rparr>,
       \<lparr>ev_name = ''resume'', ev_from = [''paused''], ev_to = ''running''\<rparr>,
       \<lparr>ev_name = ''cancel'', ev_from = [''running'', ''paused''], ev_to = ''canceled''\<rparr>,
       \<lparr>ev_name = ''completeJob'', ev_from = [''running''], ev_to = ''complete''\<rparr>],
     processingJob = [''running'', ''paused'']\<rparr>"

text \<open>
  The \<^verbatim>\<open>error\<close> handler of the job's state machine logs the message and throws it. The
  text after the source state comes from the library's arguments and is left out.
\<close>

definition fsmError :: "job \<Rightarrow> string \<Rightarrow> string" where
  "fsmError j eventName =
     ''Invalid job '' @ uuid j @ '' state change on event \"'' @ eventName
       @ ''\" from \"'' @ current (job_fsm j) @ ''\"''"

text \<open>
  \<^verbatim>\<open>onenterstate\<close>: the first statement logs the transition. The database update and the
  broadcast that follow are asynchronous, their failures are caught and logged there, and
  they do not change the job; they are not modelled.
\<close>

definition onenterstate :: "string \<Rightarrow> string \<Rightarrow> string \<Rightarrow> job \<Rightarrow> job" where
  "onenterstate event frm to j =
     j\<lparr>job_log := job_log j @ [LogInfo (''Job '' @ uuid j @ '' Bot '' @ botUuid j @ '' event ''
          @ event @ '': Transitioning from '' @ frm @ '' to '' @ to @ ''.'')]\<rparr>"

text \<open>\<^verbatim>\<open>this.fsm.<event>()\<close>: the exception, if any, and the job after the call.\<close>

definition job_fire :: "string \<Rightarrow> job \<Rightarrow> js_error option \<times> job" where
  "job_fire event j =
     (case fsm_target (events (job_fsm j)) event (current (job_fsm j)) of
        None \<Rightarrow> (Some (Error (fsmError j event)),
                 j\<lparr>job_log := job_log j @ [LogError (fsmError j event)]\<rparr>)
      | Some to \<Rightarrow> (None,
                 onenterstate event (current (job_fsm j)) to
                   (j\<lparr>job_fsm := (job_fsm j)\<lparr>current := to\<rparr>\<rparr>)))"

text \<open>The \<^verbatim>\<open>catch\<close> clause shared by pause, resume and cancel: log and go on.\<close>

definition job_catch :: "string \<Rightarrow> js_error option \<times> job \<Rightarrow> job" where
  "job_catch what r =
     (case r of
        (None, j) \<Rightarrow> j
      | (Some ex, j) \<Rightarrow> j\<lparr>job_log := job_log j @ [LogError (what @ error_toString ex)]\<rparr>)"

text \<open>
  \<^verbatim>\<open>getJob()\<close>: a missing state reads as ready, and the times are \<^verbatim>\<open>null\<close> until the job
  has started; \<^verbatim>\<open>0\<close> and the empty string are falsy.
\<close>

definition truthy_num :: "nat option \<Rightarrow> bool" where
  "truthy_num v = (case v of None \<Rightarrow> False | Some n \<Rightarrow> n \<noteq> 0)"

definition getJob :: "job \<Rightarrow> job_snapshot" where
  "getJob j = \<lparr>
     snap_botUuid = botUuid j,
     snap_uuid = uuid j,
     snap_state = (if current (job_fsm j) \<noteq> [] then current (job_fsm j) else ''ready''),
     snap_fileUuid = fileUuid j,
     snap_started = (if truthy_num (started j) then started j else None),
     snap_elapsed = (if truthy_num (started j)
                     then (if ms (job_stopwatch j) \<noteq> 0 then Some (ms (job_stopwatch j))
                           else elapsed j)
                     else None),
     snap_percentComplete = percentComplete j\<rparr>"


definition Job_pause :: "job \<Rightarrow> js_error + job" where
  "Job_pause j =
     (if current (job_fsm j) = ''paused'' then Inr j
      else if current (job_fsm j) \<noteq> ''running''
        then Inl (Error (''Cannot pause job from state '' @ current (job_fsm j)))
      else Inr (job_catch ''Job pause failure ''
                  (job_fire ''pause'' (j\<lparr>job_stopwatch := stopwatch_stop (job_stopwatch j)\<rparr>))))"



section \<open>Numbers and the position report\<close>

text \<open>
  A JavaScript number is a double: a finite value, one of the two zeros, one of the two
  infinities, or \<open>NaN\<close>. \<open>Finite q\<close> holds the rational value of a finite double and
  \<open>Finite 0\<close> is the positive zero. A value that may be \<^verbatim>\<open>undefined\<close> is a \<open>jsval\<close>.
\<close>

datatype jsnum = Finite rat | NegZero | PosInfinity | NegInfinity | NaN

datatype jsval = Undefined | Number jsnum

text \<open>
  \<open>binary64\<close> rounds a rational to the nearest double, ties to the even significand.
  For a value of magnitude \<open>a\<close> with \<open>2 ^ e \<le> a < 2 ^ (e + 1)\<close> the doubles are spaced
  \<open>2 ^ (e - 52)\<close> apart, and \<open>2 ^ (- 1074)\<close> apart below \<open>2 ^ (- 1022)\<close>; a value that
  rounds up to \<open>2 ^ 1024\<close> overflows to an infinity and one that rounds down to nothing
  becomes a zero of its sign.
\<close>

definition pow2 :: "int \<Rightarrow> rat" where
  "pow2 k = (if 0 \<le> k then 2 ^ nat k else 1 / 2 ^ nat (- k))"

fun ilog2 :: "nat \<Rightarrow> nat" where
  "ilog2 n = (if n < 2 then 0 else Suc (ilog2 (n div 2)))"

declare ilog2.simps [simp del]

definition floor_log2 :: "rat \<Rightarrow> int" where
  "floor_log2 a =
     (if 1 \<le> a then int (ilog2 (nat \<lfloor>a\<rfloor>))
      else - int (ilog2 (nat (\<lceil>1 / a\<rceil> - 1))) - 1)"

definition round_half_even :: "rat \<Rightarrow> int" where
  "round_half_even m =
     (let f = \<lfloor>m\<rfloor>; d = m - of_int f
      in if d < 1 / 2 then f else if 1 / 2 < d then f + 1 else if even f then f else f + 1)"

definition binary64 :: "rat \<Rightarrow> jsnum" where
  "binary64 q =
     (if q = 0 then Finite 0
      else
        let a = \<bar>q\<bar>; e = floor_log2 a
        in if 1023 < e then (if q < 0 then NegInfinity else PosInfinity)
           else
             let p = max e (- 1022) - 52; n = round_half_even (a / pow2 p)
             in if n = 0 then (if q < 0 then NegZero else Finite 0)
                else if e = 1023 \<and> n = 2 ^ 53 then (if q < 0 then NegInfinity else PosInfinity)
                else Finite (sgn q * of_int n * pow2 p))"

text \<open>
  \<^verbatim>\<open>- b\<close>, \<^verbatim>\<open>a - b\<close> and \<^verbatim>\<open>a + b\<close> on numbers. The exact difference of two finite
  doubles is rounded; a difference that is exactly zero is the positive zero, unless the
  negative zero is what something equal to zero is taken from.
\<close>

fun js_negate :: "jsnum \<Rightarrow> jsnum" where
  "js_negate (Finite q) = (if q = 0 then NegZero else Finite (- q))"
| "js_negate NegZero = Finite 0"
| "js_negate PosInfinity = NegInfinity"
| "js_negate NegInfinity = PosInfinity"
| "js_negate NaN = NaN"

fun js_minus :: "jsnum \<Rightarrow> jsnum \<Rightarrow> jsnum" where
  "js_minus NaN b = NaN"
| "js_minus a NaN = NaN"
| "js_minus PosInfinity PosInfinity = NaN"
| "js_minus NegInfinity NegInfinity = NaN"
| "js_minus PosInfinity b = PosInfinity"
| "js_minus NegInfinity b = NegInfinity"
| "js_minus a PosInfinity = NegInfinity"
| "js_minus a NegInfinity = PosInfinity"
| "js_minus NegZero NegZero = Finite 0"
| "js_minus NegZero (Finite b) = (if b = 0 then NegZero else binary64 (- b))"
| "js_minus (Finite a) NegZero = (if a = 0 then Finite 0 else binary64 a)"
| "js_minus (Finite a) (Finite b) = (if a = b then Finite 0 else binary64 (a - b))"

definition js_plus :: "jsnum \<Rightarrow> jsnum \<Rightarrow> jsnum" where
  "js_plus a b = js_minus a (js_negate b)"

text \<open>\<^verbatim>\<open>ToNumber\<close> of a value that is a number or \<^verbatim>\<open>undefined\<close>.\<close>

fun ToNumber :: "jsval \<Rightarrow> jsnum" where
  "ToNumber Undefined = NaN"
| "ToNumber (Number n) = n"

text \<open>
  \<^verbatim>\<open>Number(s)\<close> on the strings the capture groups can hold: an optional sign, digits, and
  an optional fraction of a point and digits. The result is the double nearest to the
  decimal value (the language allows an implementation to read only the first twenty
  significant digits; the runtimes in use round the exact value). Any other string gives
  \<open>NaN\<close> here (the runtime accepts more forms, such as exponents and surrounding blanks; no
  capture of the position expression has them).
\<close>

definition is_digit :: "char \<Rightarrow> bool" where
  "is_digit c = (c \<in> set ''0123456789'')"

definition digit_value :: "char \<Rightarrow> nat" where
  "digit_value c =
     (case map_of (zip ''0123456789'' [0, 1, 2, 3, 4, 5, 6, 7, 8, 9]) c of
        None \<Rightarrow> 0 | Some d \<Rightarrow> d)"

fun digits_value :: "nat \<Rightarrow> string \<Rightarrow> nat" where
  "digits_value acc [] = acc"
| "digits_value acc (c # cs) = digits_value (10 * acc + digit_value c) cs"

definition unsigned_decimal :: "string \<Rightarrow> rat option" where
  "unsigned_decimal s =
     (let ip = takeWhile is_digit s; rest = dropWhile is_digit s in
      if ip = [] then None
      else if rest = [] then Some (of_nat (digits_value 0 ip))
      else if hd rest = CHR ''.'' \<and> tl rest \<noteq> [] \<and> list_all is_digit (tl rest)
        then Some (of_nat (digits_value 0 ip)
                   + of_nat (digits_value 0 (tl rest)) / of_nat (10 ^ length (tl rest)))
      else None)"

definition Number_of_string :: "string \<Rightarrow> jsnum" where
  "Number_of_string s =
     (case s of
        [] \<Rightarrow> NaN
      | c # cs \<Rightarrow>
          (if c = CHR ''-''
             then (case unsigned_decimal cs of None \<Rightarrow> NaN | Some q \<Rightarrow> js_negate (binary64 q))
           else if c = CHR ''+''
             then (case unsigned_decimal cs of None \<Rightarrow> NaN | Some q \<Rightarrow> binary64 q)
           else (case unsigned_decimal s of None \<Rightarrow> NaN | Some q \<Rightarrow> binary64 q)))"

subsection \<open>The regular expressions the code uses\<close>

text \<open>
  The fragment of the regular expression language that \<^verbatim>\<open>m114Regex\<close> is written in:
  character classes, the greedy quantifiers \<^verbatim>\<open>*\<close> and \<^verbatim>\<open>+\<close> on a class, the greedy
  \<^verbatim>\<open>?\<close>, sequence, and numbered capture groups. Strings are lists of 8-bit characters;
  \<^verbatim>\<open>.\<close> excludes the line terminators and \<^verbatim>\<open>\s\<close> is the white space below 256.
\<close>

datatype cclass = AnyChar | Digit | Space | OneOf "char list" | Lit char

fun cmatch :: "cclass \<Rightarrow> char \<Rightarrow> bool" where
  "cmatch AnyChar c = (c \<notin> set [CHR 0x0A, CHR 0x0D])"
| "cmatch Digit c = is_digit c"
| "cmatch Space c = (c \<in> set [CHR 0x09, CHR 0x0A, CHR 0x0B, CHR 0x0C, CHR 0x0D, CHR 0x20, CHR 0xA0])"
| "cmatch (OneOf cs) c = (c \<in> set cs)"
| "cmatch (Lit x) c = (c = x)"

datatype regex =
    Chr cclass
  | Star cclass
  | Plus cclass
  | Opt regex
  | Seq regex regex
  | Group nat regex

type_synonym captures = "nat \<rightharpoonup> string"

text \<open>
  A backtracking matcher as a list of successes: the ways the expression matches a prefix
  of the input, each with the rest of the input and the captures, in the order the
  backtracking engine tries them (greedy: longest first). The engine's answer is the
  head of the list.
\<close>

fun star :: "cclass \<Rightarrow> string \<Rightarrow> string list" where
  "star k [] = [[]]"
| "star k (c # cs) = (if cmatch k c then star k cs @ [c # cs] else [c # cs])"

fun rmatch :: "regex \<Rightarrow> string \<Rightarrow> captures \<Rightarrow> (string \<times> captures) list" where
  "rmatch (Chr k) s cap =
     (case s of [] \<Rightarrow> [] | c # cs \<Rightarrow> if cmatch k c then [(cs, cap)] else [])"
| "rmatch (Star k) s cap = map (\<lambda>r. (r, cap)) (star k s)"
| "rmatch (Plus k) s cap =
     (case s of [] \<Rightarrow> [] | c # cs \<Rightarrow> if cmatch k c then map (\<lambda>r. (r, cap)) (star k cs) else [])"
| "rmatch (Opt r) s cap = rmatch r s cap @ [(s, cap)]"
| "rmatch (Seq r1 r2) s cap =
     concat (map (\<lambda>(s', cap'). rmatch r2 s' cap') (rmatch r1 s cap))"
| "rmatch (Group n r) s cap =
     map (\<lambda>(s', cap'). (s', cap'(n \<mapsto> take (length s - length s') s))) (rmatch r s cap)"

text \<open>
  \<^verbatim>\<open>data.match(re)\<close> for an expression without the global flag: the first start index
  at which the expression matches, from the left; \<open>None\<close> is \<^verbatim>\<open>null\<close>. Group 0 (the
  whole match) is not read by the code and is left out.
\<close>

fun js_match :: "regex \<Rightarrow> string \<Rightarrow> captures option" where
  "js_match r [] = (case rmatch r [] Map.empty of [] \<Rightarrow> None | (_, cap) # _ \<Rightarrow> Some cap)"
| "js_match r (c # cs) =
     (case rmatch r (c # cs) Map.empty of [] \<Rightarrow> js_match r cs | (_, cap) # _ \<Rightarrow> Some cap)"

fun lits :: "string \<Rightarrow> regex \<Rightarrow> regex" where
  "lits [] r = r"
| "lits (c # cs) r = Seq (Chr (Lit c)) (lits cs r)"

text \<open>\<^verbatim>\<open>([+-]?\d+(\.\d+)?)\<close> as groups \<open>n\<close> and \<open>n + 1\<close>.\<close>

definition number_group :: "nat \<Rightarrow> regex" where
  "number_group n =
     Group n (Seq (Opt (Chr (OneOf ''+-'')))
               (Seq (Plus Digit) (Opt (Group (n + 1) (Seq (Chr (Lit CHR ''.'')) (Plus Digit))))))"

text \<open>
  \<^verbatim>\<open>/.*X:([+-]?\d+(\.\d+)?)\s*Y:([+-]?\d+(\.\d+)?)\s*Z:([+-]?\d+(\.\d+)?)\s*E:([+-]?\d+(\.\d+)?).*/\<close>
\<close>

definition m114Regex :: regex where
  "m114Regex =
     Seq (Star AnyChar)
      (lits ''X:'' (Seq (number_group 1) (Seq (Star Space)
      (lits ''Y:'' (Seq (number_group 3) (Seq (Star Space)
      (lits ''Z:'' (Seq (number_group 5) (Seq (Star Space)
      (lits ''E:'' (Seq (number_group 7) (Star AnyChar))))))))))))"

section \<open>bots/Virtual/commands/pause.js\<close>

subsection \<open>The device object\<close>

record position =
  pos_x :: jsval
  pos_y :: jsval
  pos_z :: jsval
  pos_e :: jsval

text \<open>
  \<open>offsetX\<close>, \<open>offsetY\<close> and \<open>offsetZ\<close> hold the values of
  \<^verbatim>\<open>Number(self.settings.offsetX)\<close> and so on, which is how the code reads them.
\<close>

record settings =
  name :: string
  offsetX :: jsnum
  offsetY :: jsnum
  offsetZ :: jsnum

text \<open>
  A queue entry is an object with the optional fields \<^verbatim>\<open>code\<close>, \<^verbatim>\<open>preCallback\<close>,
  \<^verbatim>\<open>postCallback\<close> and \<^verbatim>\<open>processData\<close>; a plain string \<^verbatim>\<open>'M400'\<close> in a command array
  is an entry with that code only. The callbacks are closures over \<^verbatim>\<open>self\<close> and the
  locals of \<^verbatim>\<open>pause\<close>; each is a constructor that carries the values it has captured,
  and \<open>run_callback\<close> below is its body.
\<close>

datatype processor = m114_processor

datatype command =
  Command (code: "string option") (preCallback: "callback option")
          (postCallback: "callback option") (processData: "processor option")
and callback =
    pauseEnd_postCallback
  | m114_preCallback
  | lift_preCallback
  | closing_postCallback command
  | jobPause_postCallback "command list"
  | marker_postCallback

text \<open>
  \<open>history\<close> is not a field of the source: it records, in order, the events fired on the
  device state machine, the instructions sent and the entries completed, so that claims
  about their order can be stated.
\<close>

datatype action = Fire string | Send string | Completed command | Abandoned command

text \<open>
  \<open>queue\<close> and \<open>inflight\<close> are the state of \<^verbatim>\<open>self.queue\<close>: the entries waiting and the
  entry sent to the device and not yet answered.
  \<open>local_pausedPosition\<close> is the variable \<^verbatim>\<open>pausedPosition\<close> declared with \<^verbatim>\<open>let\<close> in the
  body of \<^verbatim>\<open>pause\<close> and captured by the callback of the lift entry.
\<close>

record bot =
  settings :: settings
  bot_fsm :: fsm
  currentJob :: "job option"
  pausedPosition :: "position option"
  pauseableState :: "string option"
  queue :: "command list"
  inflight :: "command option"
  bot_logger :: "log_entry list"
  local_pausedPosition :: "position option"
  history :: "action list"

text \<open>
  \<^verbatim>\<open>react/modules/Bots/botFsmDefinitions\<close> is required by pause.js and is not among the
  sources; \<^verbatim>\<open>metaStates.pauseable\<close> is a parameter.
\<close>

record botFsmDefs =
  pauseable :: "string list"

text \<open>
  Modelled from the spec: firing an event on the device state machine (the machine is set
  up in the bot class, which is missing from the sources). Firing a transition from a state
  that does not permit it raises a state-transition error; otherwise the machine moves to
  the target state of the table.
\<close>

definition bot_fire :: "string \<Rightarrow> bot \<Rightarrow> js_error option \<times> bot" where
  "bot_fire event self =
     (let self1 = self\<lparr>history := history self @ [Fire event]\<rparr> in
      case fsm_target (events (bot_fsm self)) event (current (bot_fsm self)) of
        None \<Rightarrow> (Some (Error (''Invalid bot state change on event \"'' @ event
                     @ ''\" from \"'' @ current (bot_fsm self) @ ''\"'')), self1)
      | Some to \<Rightarrow> (None, self1\<lparr>bot_fsm := (bot_fsm self)\<lparr>current := to\<rparr>\<rparr>))"

text \<open>
  Modelled from the spec: \<^verbatim>\<open>getBot()\<close> (bot class, missing from the sources) returns the
  current device and job snapshot.
\<close>

record bot_snapshot =
  snap_settings :: settings
  snap_bot_state :: string
  snap_currentJob :: "job_snapshot option"

definition getBot :: "bot \<Rightarrow> bot_snapshot" where
  "getBot self = \<lparr>
     snap_settings = settings self,
     snap_bot_state = current (bot_fsm self),
     snap_currentJob = map_option getJob (currentJob self)\<rparr>"

text \<open>
  Modelled from the spec: the two insertions of the command queue (queue class, missing
  from the sources). \<^verbatim>\<open>prependCommands\<close> inserts the entries at the head, to be drained
  before anything queued; \<^verbatim>\<open>queueCommands\<close> appends them to the tail. Neither starts
  draining.
\<close>

definition prependCommands :: "command list \<Rightarrow> command list \<Rightarrow> command list" where
  "prependCommands entries q = entries @ q"

definition queueCommands :: "command list \<Rightarrow> command list \<Rightarrow> command list" where
  "queueCommands entries q = q @ entries"

subsection \<open>The entries built by pause\<close>

definition pauseEndCommand :: command where
  "pauseEndCommand = Command None None (Some pauseEnd_postCallback) None"

text \<open>
  \<^verbatim>\<open>`G1 Z${pausedPosition.z + 10}`\<close>: the addition converts \<^verbatim>\<open>undefined\<close> to \<open>NaN\<close>, and
  the template prints the number. The printing of a finite number is the runtime's and is
  the parameter \<open>shw\<close>.
\<close>

fun number_toString :: "(rat \<Rightarrow> string) \<Rightarrow> jsnum \<Rightarrow> string" where
  "number_toString shw NaN = ''NaN''"
| "number_toString shw PosInfinity = ''Infinity''"
| "number_toString shw NegInfinity = ''-Infinity''"
| "number_toString shw NegZero = ''0''"
| "number_toString shw (Finite q) = shw q"

definition lift_code :: "(rat \<Rightarrow> string) \<Rightarrow> position \<Rightarrow> string" where
  "lift_code shw p = ''G1 Z'' @ number_toString shw (js_plus (ToNumber (pos_z p)) (Finite 10))"

text \<open>
  The array literal \<^verbatim>\<open>pauseMovementCommand\<close>. It is evaluated when \<^verbatim>\<open>pause\<close> runs, with
  the value the local \<^verbatim>\<open>pausedPosition\<close> has at that moment.
\<close>

definition pauseMovementCommand :: "(rat \<Rightarrow> string) \<Rightarrow> position \<Rightarrow> command list" where
  "pauseMovementCommand shw local = [
     Command (Some ''M400'') None None None,
     Command (Some ''M114'') (Some m114_preCallback) None (Some m114_processor),
     Command (Some (lift_code shw local)) (Some lift_preCallback) None None,
     Command None None (Some (closing_postCallback pauseEndCommand)) None]"

definition jobPauseCommand :: "command list \<Rightarrow> command" where
  "jobPauseCommand movement = Command None None (Some (jobPause_postCallback movement)) None"

definition markerCommand :: command where
  "markerCommand = Command None None (Some marker_postCallback) None"

definition bot_debug :: "string \<Rightarrow> bot \<Rightarrow> bot" where
  "bot_debug m self = self\<lparr>bot_logger := bot_logger self @ [LogDebug m]\<rparr>"

text \<open>
  \<^verbatim>\<open>parsedPosition[i]\<close> of a match: the text of group \<open>i\<close>, or \<^verbatim>\<open>undefined\<close> when the group
  did not take part, which \<^verbatim>\<open>Number\<close> turns into \<open>NaN\<close>.
\<close>

definition Number_of_capture :: "string option \<Rightarrow> jsnum" where
  "Number_of_capture c = (case c of None \<Rightarrow> NaN | Some s \<Rightarrow> Number_of_string s)"

text \<open>
  \<^verbatim>\<open>processData\<close> of the M114 entry. When the line does not match, \<^verbatim>\<open>data.match\<close> is
  \<^verbatim>\<open>null\<close> and reading \<^verbatim>\<open>parsedPosition[1]\<close> throws before anything is stored.
\<close>

definition m114_processData :: "string \<Rightarrow> bot \<Rightarrow> js_error + bool \<times> bot" where
  "m114_processData data self =
     (case js_match m114Regex data of
        None \<Rightarrow> Inl (TypeError ''Cannot read property 1 of null'')
      | Some parsedPosition \<Rightarrow>
          Inr (True, self\<lparr>pausedPosition := Some \<lparr>
            pos_x = Number (js_minus (Number_of_capture (parsedPosition 1)) (offsetX (settings self))),
            pos_y = Number (js_minus (Number_of_capture (parsedPosition 3)) (offsetY (settings self))),
            pos_z = Number (js_minus (Number_of_capture (parsedPosition 5)) (offsetZ (settings self))),
            pos_e = Number (Number_of_capture (parsedPosition 7))\<rparr>\<rparr>))"

fun run_processor :: "processor \<Rightarrow> string \<Rightarrow> bot \<Rightarrow> js_error + bool \<times> bot" where
  "run_processor m114_processor data self = m114_processData data self"

text \<open>The bodies of the callbacks: the exception, if any, and the device after the call.\<close>

fun run_callback :: "callback \<Rightarrow> bot \<Rightarrow> js_error option \<times> bot" where
  "run_callback pauseEnd_postCallback self = bot_fire ''pauseDone'' self"
| "run_callback m114_preCallback self = (None, bot_debug ''Starting pause movements'' self)"
| "run_callback lift_preCallback self =
     (None, self\<lparr>local_pausedPosition := pausedPosition self\<rparr>)"
| "run_callback (closing_postCallback pauseEnd) self =
     (None, self\<lparr>queue := prependCommands [pauseEnd] (queue self)\<rparr>)"
| "run_callback (jobPause_postCallback movement) self =
     (let self1 = bot_debug ''Starting pause command'' self in
      case currentJob self1 of
        None \<Rightarrow> (Some (TypeError ''Cannot read property pause of undefined''), self1)
      | Some j \<Rightarrow>
          (case Job_pause j of
             Inl ex \<Rightarrow> (Some ex, self1)
           | Inr j' \<Rightarrow>
               (None, self1\<lparr>currentJob := Some j',
                             queue := prependCommands movement (queue self1)\<rparr>)))"
| "run_callback marker_postCallback self =
     (let self1 = bot_debug (''Just queued pause '' @ name (snap_settings (getBot self)) @ '' ''
                              @ current (bot_fsm self)) self;
          self2 = self1\<lparr>pauseableState := Some (current (bot_fsm self1))\<rparr>
      in bot_fire ''pause'' self2)"

subsection \<open>pause\<close>

definition undefined_position :: position where
  "undefined_position =
     \<lparr>pos_x = Undefined, pos_y = Undefined, pos_z = Undefined, pos_e = Undefined\<rparr>"

text \<open>The body of the \<^verbatim>\<open>try\<close> block: the exception it ends with, if any, and the device.\<close>

definition pause_try :: "(rat \<Rightarrow> string) \<Rightarrow> botFsmDefs \<Rightarrow> bot \<Rightarrow> js_error option \<times> bot" where
  "pause_try shw defs self =
     (case currentJob self of
        None \<Rightarrow> (Some (Error (''Bot '' @ name (settings self)
                     @ '' is not currently processing a job'')), self)
      | Some j \<Rightarrow>
          if current (bot_fsm self) \<notin> set (pauseable defs)
            then (Some (Error (''Cannot pause bot from state \"'' @ current (bot_fsm self)
                          @ ''\"'')), self)
          else if current (job_fsm j) \<noteq> ''running''
            then (Some (Error (''Cannot pause job from state \"'' @ current (job_fsm j)
                          @ ''\"'')), self)
          else
            (let commandArray = [];
                 self1 = self\<lparr>local_pausedPosition := Some undefined_position\<rparr>;
                 movement = pauseMovementCommand shw undefined_position;
                 self2 = self1\<lparr>queue := prependCommands [jobPauseCommand movement] (queue self1)\<rparr>
             in if current (bot_fsm self2) = ''blocking'' \<or> current (bot_fsm self2) = ''unblocking''
                then (None, self2\<lparr>queue := queueCommands (markerCommand # commandArray) (queue self2)\<rparr>)
                else
                  (let self3 = self2\<lparr>queue := prependCommands commandArray (queue self2)\<rparr>;
                       self4 = bot_debug (''Just queued pause '' @ name (snap_settings (getBot self3))
                                 @ '' '' @ current (bot_fsm self3)) self3;
                       self5 = self4\<lparr>pauseableState := Some (current (bot_fsm self4))\<rparr>
                   in bot_fire ''pause'' self5)))"

text \<open>\<^verbatim>\<open>pause(self, params)\<close>: the \<^verbatim>\<open>catch\<close> logs, and the snapshot is returned either way.\<close>

definition pause :: "(rat \<Rightarrow> string) \<Rightarrow> botFsmDefs \<Rightarrow> bot \<Rightarrow> bot \<times> bot_snapshot" where
  "pause shw defs self =
     (let self' = (case pause_try shw defs self of
                     (None, s) \<Rightarrow> s
                   | (Some ex, s) \<Rightarrow>
                       s\<lparr>bot_logger := bot_logger s @ [LogError (''Pause error '' @ error_toString ex)]\<rparr>)
      in (self', getBot self'))"

section \<open>server/middleware/files/index.js: the registry of jobs\<close>

text \<open>
  The \<^verbatim>\<open>Jobs\<close> object: the registry \<^verbatim>\<open>jobList\<close>, the logger and the socket \<^verbatim>\<open>app.io\<close>.
  The socket is an outside collaborator: \<^verbatim>\<open>emit\<close> is a parameter that either throws or
  returns the socket after the broadcast.
\<close>

record 'io jobs =
  jobList :: "string \<rightharpoonup> job"
  jobs_logger :: "log_entry list"
  io :: 'io

definition deleteJob ::
  "(string \<Rightarrow> jobEvent \<Rightarrow> 'io \<Rightarrow> js_error + 'io) \<Rightarrow> string \<Rightarrow> 'io jobs \<Rightarrow> 'io jobs \<times> string" where
  "deleteJob emit jobUuid this =
     (let theJob = jobList this jobUuid;
          this1 = this\<lparr>jobList := (jobList this)(jobUuid := None)\<rparr>;
          this2 = this1\<lparr>jobs_logger := jobs_logger this1 @ [LogInfo (''Job '' @ jobUuid @ '' deleted'')]\<rparr>;
          this3 = (case emit ''jobEvent'' \<lparr>je_uuid = jobUuid, je_event = ''delete'', je_data = None\<rparr> (io this2) of
                     Inr io' \<Rightarrow> this2\<lparr>io := io'\<rparr>
                   | Inl ex \<Rightarrow> this2\<lparr>jobs_logger := jobs_logger this2
                                        @ [LogError (''Socket error '' @ error_toString ex)]\<rparr>)
      in (this3, ''Job '' @ jobUuid @ '' deleted''))"

section \<open>The drain loop of the command queue\<close>

text \<open>
  Modelled from the spec: the drain loop (queue class, missing from the sources). While the
  queue is not empty and no entry is in flight, the head entry is popped, its pre-callback
  runs, its instruction text is sent, and the queue waits for response lines. Each line
  goes to the entry's response-processing function, whose result says whether to keep
  waiting; an entry without one is satisfied by the first line. An entry with neither
  text nor processing function is satisfied as soon as its pre-callback has run. Once
  satisfied, the post-callback runs and draining goes on. An entry fails on a transport
  error or on malformed data (its processing function throws): the failure is logged, the
  entry is abandoned without its post-callback, and the queue proceeds.

  The loop is a transition system: \<open>Next\<close> is a turn of the loop, \<open>Line\<close> a response line
  from the device, \<open>TransportError\<close> an error of the connection; an event that is not
  enabled changes nothing. \<open>keep\<close> is the result of the processing function that means
  keep waiting; the specification's convention is \<open>keep = True\<close>. The history records the
  instruction text of an entry, before any checksum suffix. What the queue does with an
  exception thrown by a callback is not specified: here it is logged and draining goes on.
\<close>

datatype drain_event = Next | Line string | TransportError

definition log_exception :: "js_error option \<times> bot \<Rightarrow> bot" where
  "log_exception r =
     (case r of
        (None, s) \<Rightarrow> s
      | (Some ex, s) \<Rightarrow> s\<lparr>bot_logger := bot_logger s @ [LogError (error_toString ex)]\<rparr>)"

definition run_optional :: "callback option \<Rightarrow> bot \<Rightarrow> bot" where
  "run_optional cb s = (case cb of None \<Rightarrow> s | Some f \<Rightarrow> log_exception (run_callback f s))"

definition finish :: "command \<Rightarrow> bot \<Rightarrow> bot" where
  "finish c s =
     run_optional (postCallback c) (s\<lparr>inflight := None, history := history s @ [Completed c]\<rparr>)"

definition abandon :: "command \<Rightarrow> js_error \<Rightarrow> bot \<Rightarrow> bot" where
  "abandon c ex s =
     s\<lparr>inflight := None, history := history s @ [Abandoned c],
       bot_logger := bot_logger s @ [LogError (error_toString ex)]\<rparr>"

definition start_entry :: "command \<Rightarrow> bot \<Rightarrow> bot" where
  "start_entry c s =
     (let s1 = run_optional (preCallback c) s;
          s2 = (case code c of None \<Rightarrow> s1 | Some t \<Rightarrow> s1\<lparr>history := history s1 @ [Send t]\<rparr>)
      in if code c = None \<and> processData c = None then finish c s2
         else s2\<lparr>inflight := Some c\<rparr>)"

fun step :: "bool \<Rightarrow> drain_event \<Rightarrow> bot \<Rightarrow> bot" where
  "step keep Next s =
     (case inflight s of
        Some c \<Rightarrow> s
      | None \<Rightarrow> (case queue s of [] \<Rightarrow> s | c # q \<Rightarrow> start_entry c (s\<lparr>queue := q\<rparr>)))"
| "step keep (Line data) s =
     (case inflight s of
        None \<Rightarrow> s
      | Some c \<Rightarrow>
          (case processData c of
             None \<Rightarrow> finish c s
           | Some p \<Rightarrow>
               (case run_processor p data s of
                  Inl ex \<Rightarrow> abandon c ex s
                | Inr (r, s') \<Rightarrow> if r = keep then s' else finish c s')))"
| "step keep TransportError s =
     (case inflight s of
        None \<Rightarrow> s
      | Some c \<Rightarrow> abandon c (Error ''transport error'') s)"

fun drain :: "bool \<Rightarrow> drain_event list \<Rightarrow> bot \<Rightarrow> bot" where
  "drain keep [] s = s"
| "drain keep (e # es) s = drain keep es (step keep e s)"

section \<open>Notions used to state the claims\<close>

text \<open>An entry with an instruction text only, as queued by the rest of the program.\<close>

definition plain :: "command \<Rightarrow> bool" where
  "plain c = (preCallback c = None \<and> postCallback c = None \<and> processData c = None)"

text \<open>The lift entry of the cascade that \<^verbatim>\<open>pause\<close> builds.\<close>

definition liftCommand :: "(rat \<Rightarrow> string) \<Rightarrow> command" where
  "liftCommand shw = pauseMovementCommand shw undefined_position ! 2"

text \<open>In a history, every firing of \<open>event\<close> comes after the action \<open>a\<close>.\<close>

definition only_after :: "action \<Rightarrow> string \<Rightarrow> action list \<Rightarrow> bool" where
  "only_after a event h = (\<forall>i < length h. h ! i = Fire event \<longrightarrow> a \<in> set (take i h))"

subsection \<open>Concrete devices and jobs\<close>

text \<open>
  Modelled from the spec: the table of the device state machine and the pauseable states
  (\<^verbatim>\<open>botFsmDefinitions\<close>, missing from the sources): pause leads from idle to paused,
  pauseDone completes the settling into paused, resume leads back to idle; idle is
  pauseable, blocking and unblocking are not.
\<close>

definition botFsmEvents :: "fsm_event list" where
  "botFsmEvents = [
     \<lparr>ev_name = ''connect'', ev_from = [''disconnected''], ev_to = ''connecting''\<rparr>,
     \<lparr>ev_name = ''connectDone'', ev_from = [''connecting''], ev_to = ''idle''\<rparr>,
     \<lparr>ev_name = ''pause'', ev_from = [''idle''], ev_to = ''paused''\<rparr>,
     \<lparr>ev_name = ''pauseDone'', ev_from = [''paused''], ev_to = ''paused''\<rparr>,
     \<lparr>ev_name = ''resume'', ev_from = [''paused''], ev_to = ''idle''\<rparr>]"

definition botFsmDefinitions :: botFsmDefs where
  "botFsmDefinitions = \<lparr>pauseable = [''idle'']\<rparr>"

text \<open>A table in which the transient states are pauseable, so that the deferred branch of
  \<^verbatim>\<open>pause\<close> can be reached.\<close>

definition transient_botFsmDefinitions :: botFsmDefs where
  "transient_botFsmDefinitions = \<lparr>pauseable = [''idle'', ''blocking'', ''unblocking'']\<rparr>"

definition example_job :: "string \<Rightarrow> job" where
  "example_job st = \<lparr>
     botUuid = ''bot-1'', fileUuid = Some ''file-1'', uuid = ''job-1'',
     job_fsm = \<lparr>current = st, events = fsmEvents jobFsmDefinitions\<rparr>,
     job_stopwatch = \<lparr>ticking = (st = ''running''), ms = 0\<rparr>,
     started = Some 1, elapsed = None, percentComplete = 0, job_log = []\<rparr>"

definition example_bot :: "string \<Rightarrow> job option \<Rightarrow> command list \<Rightarrow> bot" where
  "example_bot st j q = \<lparr>
     settings = \<lparr>name = ''Virtual Bot'', offsetX = Finite 0, offsetY = Finite 0, offsetZ = Finite 0\<rparr>,
     bot_fsm = \<lparr>current = st, events = botFsmEvents\<rparr>,
     currentJob = j,
     pausedPosition = None,
     pauseableState = None,
     queue = q,
     inflight = None,
     bot_logger = [],
     local_pausedPosition = None,
     history = []\<rparr>"

text \<open>
  The printing of finite numbers used in the examples (no example prints one), a socket
  that records what is emitted, a socket that throws, and a registry that holds no job.
\<close>

definition example_shw :: "rat \<Rightarrow> string" where
  "example_shw q = ''?''"

definition example_emit :: "string \<Rightarrow> jobEvent \<Rightarrow> (string \<times> jobEvent) list \<Rightarrow> js_error + (string \<times> jobEvent) list" where
  "example_emit topic ev sock = Inr (sock @ [(topic, ev)])"


definition empty_jobs :: "(string \<times> jobEvent) list jobs" where
  "empty_jobs = \<lparr>jobList = Map.empty, jobs_logger = [], io = []\<rparr>"

subsection \<open>The preconditions of a pause request\<close>

text \<open>
  The precondition error of a pause request, in the order the specification lists the
  preconditions: the device must have a current job, the device state machine must be in a
  pauseable state, the job's state machine must be running. \<open>None\<close> when all three hold.
\<close>

definition pause_precondition_error :: "botFsmDefs \<Rightarrow> bot \<Rightarrow> js_error option" where
  "pause_precondition_error defs self =
     (case currentJob self of
        None \<Rightarrow> Some (Error (''Bot '' @ name (settings self) @ '' is not currently processing a job''))
      | Some j \<Rightarrow>
          if current (bot_fsm self) \<notin> set (pauseable defs)
            then Some (Error (''Cannot pause bot from state \"'' @ current (bot_fsm self) @ ''\"''))
          else if current (job_fsm j) \<noteq> ''running''
            then Some (Error (''Cannot pause job from state \"'' @ current (job_fsm j) @ ''\"''))
          else None)"

subsection \<open>The cascade in the queue\<close>

text \<open>The entries of the cascade by name, and the state of the queue as one list.\<close>

definition m114Command :: command where
  "m114Command = Command (Some ''M114'') (Some m114_preCallback) None (Some m114_processor)"

definition closingCommand :: command where
  "closingCommand = Command None None (Some (closing_postCallback pauseEndCommand)) None"

definition pending :: "bot \<Rightarrow> command list" where
  "pending s = (case inflight s of None \<Rightarrow> [] | Some c \<Rightarrow> [c]) @ queue s"

definition transient :: "bot \<Rightarrow> bool" where
  "transient self = (current (bot_fsm self) = ''blocking'' \<or> current (bot_fsm self) = ''unblocking'')"

text \<open>
  The invariant of the drain loop after a pause request. Every entry is an entry of the
  cascade or a plain one; until the lift entry has ended (completed, or abandoned after a
  failure), no closing entry is ahead of the lift entry and the final entry is not queued;
  every firing of pauseDone in the history comes after the end of the lift entry; the
  entries of the second stage are queued only once the first stage's entry has completed,
  and the final entry only once the closing entry has.
\<close>

definition cascade_entry :: "(rat \<Rightarrow> string) \<Rightarrow> command \<Rightarrow> bool" where
  "cascade_entry shw c =
     (plain c \<or> c = m114Command \<or> c = liftCommand shw \<or> c = closingCommand
      \<or> c = pauseEndCommand
      \<or> c = jobPauseCommand (pauseMovementCommand shw undefined_position)
      \<or> c = markerCommand)"

definition lift_ended :: "(rat \<Rightarrow> string) \<Rightarrow> action list \<Rightarrow> bool" where
  "lift_ended shw h = (Completed (liftCommand shw) \<in> set h \<or> Abandoned (liftCommand shw) \<in> set h)"

fun guarded :: "command \<Rightarrow> command \<Rightarrow> command list \<Rightarrow> bool" where
  "guarded l c [] = True"
| "guarded l c (x # xs) = (x = l \<or> (x \<noteq> c \<and> guarded l c xs))"

definition fired_after_lift :: "(rat \<Rightarrow> string) \<Rightarrow> action list \<Rightarrow> bool" where
  "fired_after_lift shw h = (\<forall>i < length h. h ! i = Fire ''pauseDone'' \<longrightarrow> lift_ended shw (take i h))"

definition drain_inv :: "(rat \<Rightarrow> string) \<Rightarrow> command list \<Rightarrow> action list \<Rightarrow> bool" where
  "drain_inv shw L h =
     ((\<forall>c \<in> set L. cascade_entry shw c)
      \<and> (lift_ended shw h \<or> (guarded (liftCommand shw) closingCommand L \<and> pauseEndCommand \<notin> set L))
      \<and> fired_after_lift shw h
      \<and> (\<forall>c \<in> set L. c \<in> {m114Command, liftCommand shw, closingCommand} \<longrightarrow>
             Completed (jobPauseCommand (pauseMovementCommand shw undefined_position)) \<in> set h)
      \<and> (pauseEndCommand \<in> set L \<longrightarrow> Completed closingCommand \<in> set h))"

text \<open>An action other than the abandoning of an entry that has no processing function.\<close>

definition benign :: "action \<Rightarrow> bool" where
  "benign a = (\<forall>c. a = Abandoned c \<longrightarrow> processData c \<noteq> None)"

subsection \<open>Runs of the examples\<close>

text \<open>
  The position report of the specification's example, a move queued before the pause
  request, the device after a pause request in state \<open>st\<close>, the events of a run of the
  whole cascade, of two runs in which the connection fails while the lift entry is in
  flight (one for each reading of the processing function's result), and of a run from a
  transient state.
\<close>

definition position_line :: string where
  "position_line = ''X:10.5 Y:-2.0 Z:5.0 E:100.25''"

definition queued_move :: command where
  "queued_move = Command (Some ''G1 X1'') None None None"

definition paused_example :: "botFsmDefs \<Rightarrow> string \<Rightarrow> bot" where
  "paused_example defs st =
     fst (pause example_shw defs (example_bot st (Some (example_job ''running'')) [queued_move]))"

definition pause_run :: "drain_event list" where
  "pause_run = [Next, Next, Line ''ok'', Next, Line position_line, Next, Line ''ok'', Next, Next]"

definition transport_error_run :: "drain_event list" where
  "transport_error_run =
     [Next, Next, Line ''ok'', Next, Line position_line, Next, TransportError, Next, Next]"

definition transport_error_run_keep :: "drain_event list" where
  "transport_error_run_keep =
     [Next, Next, Line ''ok'', Next, Line ''ok'', Next, TransportError, Next, Next]"

definition transient_run :: "drain_event list" where
  "transient_run = [Next, Next, Line ''ok'', Next, Line position_line, Line ''ok'', Next, Line ''ok'',
                    Next, Next, Next, Line ''ok'', Next]"

text \<open>
  The paused position of the device after the processing function has seen a line, a
  position report with text around the fields, and a device with offsets that are not
  zero.
\<close>

definition stored_position :: "string \<Rightarrow> bot \<Rightarrow> position option" where
  "stored_position data self =
     (case m114_processData data self of
        Inl ex \<Rightarrow> pausedPosition self
      | Inr (r, s) \<Rightarrow> pausedPosition s)"

definition noisy_position_line :: string where
  "noisy_position_line = ''ok C: X:+1.5 Y:-2.25Z:7 E:0.5 Count X: 3''"

definition offset_bot :: bot where
  "offset_bot = (example_bot ''paused'' None [])\<lparr>settings :=
     \<lparr>name = ''Virtual Bot'', offsetX = Finite (1 / 2), offsetY = Finite (- 1 / 4), offsetZ = Finite 2\<rparr>\<rparr>"

definition awaiting_position :: bot where
  "awaiting_position = (example_bot ''paused'' None [])\<lparr>inflight := Some m114Command\<rparr>"

subsection \<open>The captures of the position expression\<close>

text \<open>
  What the captures of the position expression hold: the group numbers of an expression,
  the text of a decimal numeral (optional sign, digits, optional fraction), a capture that
  holds one and reads as a number, not \<open>NaN\<close>, and a property of every result of the
  matcher.
\<close>

fun groups :: "regex \<Rightarrow> nat set" where
  "groups (Chr k) = {}"
| "groups (Star k) = {}"
| "groups (Plus k) = {}"
| "groups (Opt r) = groups r"
| "groups (Seq r1 r2) = groups r1 \<union> groups r2"
| "groups (Group n r) = insert n (groups r)"

definition digits :: "string \<Rightarrow> bool" where
  "digits ds = (ds \<noteq> [] \<and> list_all is_digit ds)"

definition decimal_text :: "string \<Rightarrow> bool" where
  "decimal_text d =
     (\<exists>sg ds fs. d = sg @ ds @ fs \<and> sg \<in> {[], ''+'', ''-''} \<and> digits ds
        \<and> (fs = [] \<or> (\<exists>gs. fs = CHR ''.'' # gs \<and> digits gs)))"

definition is_number :: "string option \<Rightarrow> bool" where
  "is_number c = (\<exists>d. c = Some d \<and> decimal_text d \<and> Number_of_string d \<noteq> NaN)"

definition all_results :: "regex \<Rightarrow> (captures \<Rightarrow> bool) \<Rightarrow> bool" where
  "all_results r P = (\<forall>s c s' c'. (s', c') \<in> set (rmatch r s c) \<longrightarrow> P c')"

section \<open>Properties\<close>

subsection \<open>Refused pause requests\<close>

lemma getBot_logger [simp]: "getBot (s\<lparr>bot_logger := l\<rparr>) = getBot s"
  by (simp add: getBot_def)

text \<open>
  C3. Whenever a precondition of \<^verbatim>\<open>pause\<close> fails (no current job, or the device state
  machine not in a pauseable state, or the job not running), the corresponding error is
  raised inside the \<^verbatim>\<open>try\<close> block with the device untouched, the \<^verbatim>\<open>catch\<close> logs it, and
  the call returns the snapshot of the unchanged device: the device after the call is
  the device before it with one more line in its log, and no exception leaves the call.
\<close>

theorem pause_precondition_failure:
  assumes "currentJob self = None
           \<or> current (bot_fsm self) \<notin> set (pauseable defs)
           \<or> (\<exists>j. currentJob self = Some j \<and> current (job_fsm j) \<noteq> ''running'')"
  shows "\<exists>ex. pause_precondition_error defs self = Some ex
            \<and> pause_try shw defs self = (Some ex, self)
            \<and> pause shw defs self =
                (self\<lparr>bot_logger := bot_logger self @ [LogError (''Pause error '' @ error_toString ex)]\<rparr>,
                 getBot self)"
  using assms
  by (auto simp: pause_precondition_error_def pause_try_def pause_def split: option.splits)

theorem pause_precondition_failure_witness:
  "currentJob (example_bot ''idle'' None []) = None
   \<and> pause example_shw botFsmDefinitions (example_bot ''idle'' None []) =
       ((example_bot ''idle'' None [])\<lparr>bot_logger :=
            [LogError ''Pause error Error: Bot Virtual Bot is not currently processing a job'']\<rparr>,
        getBot (example_bot ''idle'' None []))"
proof -
  have h: "currentJob (example_bot ''idle'' None []) = None"
    by (simp add: example_bot_def)
  have e: "pause_precondition_error botFsmDefinitions (example_bot ''idle'' None []) =
             Some (Error ''Bot Virtual Bot is not currently processing a job'')"
    by (simp add: pause_precondition_error_def example_bot_def)
  have l: "bot_logger (example_bot ''idle'' None []) = []"
    by (simp add: example_bot_def)
  from pause_precondition_failure [of "example_bot ''idle'' None []" botFsmDefinitions example_shw] h
  obtain ex where
    "pause_precondition_error botFsmDefinitions (example_bot ''idle'' None []) = Some ex"
    "pause example_shw botFsmDefinitions (example_bot ''idle'' None []) =
       ((example_bot ''idle'' None [])\<lparr>bot_logger := bot_logger (example_bot ''idle'' None [])
            @ [LogError (''Pause error '' @ error_toString ex)]\<rparr>,
        getBot (example_bot ''idle'' None []))"
    by blast
  with e l h show ?thesis
    by simp
qed

subsection \<open>The job's own operations\<close>






subsection \<open>Deleting from the registry\<close>

text \<open>
  C10. For an identifier that is not in the registry, \<^verbatim>\<open>Jobs.deleteJob(id)\<close> raises no
  error: the registry is unchanged, the deletion is logged, a \<^verbatim>\<open>jobEvent\<close> with event
  \<^verbatim>\<open>delete\<close> and no data is emitted for the identifier (a failure of the socket is logged
  and goes no further), and the result is the string \<^verbatim>\<open>Job <id> deleted\<close>.
\<close>

theorem deleteJob_absent:
  assumes "jobList this jobUuid = None"
  shows "snd (deleteJob emit jobUuid this) = ''Job '' @ jobUuid @ '' deleted''
       \<and> jobList (fst (deleteJob emit jobUuid this)) = jobList this
       \<and> (case emit ''jobEvent'' \<lparr>je_uuid = jobUuid, je_event = ''delete'', je_data = None\<rparr> (io this) of
            Inr io' \<Rightarrow>
              io (fst (deleteJob emit jobUuid this)) = io'
              \<and> jobs_logger (fst (deleteJob emit jobUuid this)) =
                  jobs_logger this @ [LogInfo (''Job '' @ jobUuid @ '' deleted'')]
          | Inl ex \<Rightarrow>
              io (fst (deleteJob emit jobUuid this)) = io this
              \<and> jobs_logger (fst (deleteJob emit jobUuid this)) =
                  jobs_logger this @ [LogInfo (''Job '' @ jobUuid @ '' deleted''),
                                      LogError (''Socket error '' @ error_toString ex)])"
proof -
  have "(jobList this)(jobUuid := None) = jobList this"
    using assms by (metis fun_upd_triv)
  then show ?thesis
    by (simp add: deleteJob_def Let_def split: sum.splits)
qed

theorem deleteJob_absent_witness:
  "jobList empty_jobs ''no-such-job'' = None
   \<and> snd (deleteJob example_emit ''no-such-job'' empty_jobs) = ''Job no-such-job deleted''
   \<and> jobList (fst (deleteJob example_emit ''no-such-job'' empty_jobs)) = jobList empty_jobs
   \<and> io (fst (deleteJob example_emit ''no-such-job'' empty_jobs)) =
       [(''jobEvent'', \<lparr>je_uuid = ''no-such-job'', je_event = ''delete'', je_data = None\<rparr>)]"
proof -
  have h: "jobList empty_jobs ''no-such-job'' = None"
    by (simp add: empty_jobs_def)
  from deleteJob_absent [OF h, of example_emit] h show ?thesis
    by (simp add: example_emit_def empty_jobs_def)
qed

subsection \<open>The position report\<close>

lemmas regex_eval = m114Regex_def number_group_def is_digit_def

lemma floor_numeral_div:
  "\<lfloor>(numeral a :: rat) / numeral b\<rfloor> = numeral a div numeral b"
  using floor_divide_of_int_eq [of "numeral a" "numeral b", where ?'a = rat] by simp

lemma ceiling_numeral_div:
  "\<lceil>(numeral a :: rat) / numeral b\<rceil> = - ((- numeral a) div numeral b)"
  using floor_divide_of_int_eq [of "- numeral a" "numeral b", where ?'a = rat]
  by (simp add: ceiling_def)

lemmas binary64_eval = binary64_def floor_log2_def round_half_even_def pow2_def ilog2.simps Let_def
  floor_numeral_div ceiling_numeral_div

lemmas number_eval = Number_of_capture_def Number_of_string_def unsigned_decimal_def is_digit_def
  digit_value_def js_plus_def binary64_eval

text \<open>
  The rounding at work: \<^verbatim>\<open>Number('0.3') - Number('0.1')\<close> is the double
  0.19999999999999998 and not a fifth, the negative zero is read and subtracted as such,
  and a value of \<open>2 ^ 1024\<close> or more (such as a numeral of 310 digits) reads as
  \<^verbatim>\<open>Infinity\<close>.
\<close>

lemma Number_minus_rounds:
  "js_minus (Number_of_string ''0.3'') (Number_of_string ''0.1'')
     = Finite (7205759403792793 / 36028797018963968)"
  by (simp add: number_eval)

lemma Number_negative_zero:
  "Number_of_string ''-0.0'' = NegZero \<and> js_minus (Number_of_string ''-0.0'') (Finite 0) = NegZero
   \<and> js_minus (Number_of_string ''5'') (Number_of_string ''5.0'') = Finite 0"
  by (simp add: number_eval)

lemma ilog2_ge: "2 ^ k \<le> n \<Longrightarrow> k \<le> ilog2 n"
proof (induction k arbitrary: n)
  case 0
  then show ?case by simp
next
  case (Suc k)
  then have "2 ^ k \<le> n div 2" by simp
  with Suc.IH have "k \<le> ilog2 (n div 2)" by blast
  moreover have "(2::nat) \<le> 2 ^ Suc k" by simp
  with Suc.prems have "\<not> n < 2" by linarith
  ultimately show ?case by (simp add: ilog2.simps [of n])
qed

lemma binary64_overflows:
  assumes "2 ^ 1024 \<le> q"
  shows "binary64 q = PosInfinity"
proof -
  have p: "(1::rat) \<le> 2 ^ 1024" by (rule one_le_power) simp
  with assms have q: "1 \<le> q" "0 < q" "q \<noteq> 0" "\<not> q < 0" by linarith+
  have "(2::rat) ^ 1024 = of_int (2 ^ 1024)" by (simp only: of_int_power of_int_numeral)
  with assms have "(2::int) ^ 1024 \<le> \<lfloor>q\<rfloor>" by (simp only: le_floor_iff)
  then have "int ((2::nat) ^ 1024) \<le> \<lfloor>q\<rfloor>" by (simp only: of_nat_power of_nat_numeral)
  then have "(2::nat) ^ 1024 \<le> nat \<lfloor>q\<rfloor>" by linarith
  from ilog2_ge [OF this] have "1023 < int (ilog2 (nat \<lfloor>q\<rfloor>))" by linarith
  with q show ?thesis
    by (simp add: binary64_def floor_log2_def Let_def del: power_numeral)
qed

lemma position_line_match: "js_match m114Regex position_line \<noteq> None"
  by (simp add: position_line_def regex_eval)

lemma star_sound: "r \<in> set (star k s) \<Longrightarrow> \<exists>u. s = u @ r \<and> list_all (cmatch k) u"
proof (induction s arbitrary: r)
  case Nil
  then show ?case by simp
next
  case (Cons c cs)
  show ?case
  proof (cases "cmatch k c \<and> r \<in> set (star k cs)")
    case True
    with Cons.IH obtain u where "cs = u @ r" "list_all (cmatch k) u" by blast
    with True have "c # cs = (c # u) @ r \<and> list_all (cmatch k) (c # u)" by simp
    then show ?thesis by blast
  next
    case False
    with Cons.prems have "r = c # cs" by (auto split: if_splits)
    then show ?thesis by simp
  qed
qed

lemma rmatch_suffix: "(s', c') \<in> set (rmatch r s c) \<Longrightarrow> \<exists>u. s = u @ s'"
proof (induction r arbitrary: s c s' c')
  case (Chr k)
  then show ?case by (auto split: list.splits if_splits)
next
  case (Star k)
  then show ?case using star_sound by fastforce
next
  case (Plus k)
  then show ?case
    by (auto split: list.splits if_splits dest!: star_sound)
next
  case (Opt r)
  then show ?case by auto
next
  case (Seq r1 r2)
  from Seq.prems obtain s1 c1 where "(s1, c1) \<in> set (rmatch r1 s c)" "(s', c') \<in> set (rmatch r2 s1 c1)"
    by auto
  with Seq.IH show ?case by (metis append.assoc)
next
  case (Group n r)
  then show ?case by auto
qed

lemma rmatch_frame: "(s', c') \<in> set (rmatch r s c) \<Longrightarrow> n \<notin> groups r \<Longrightarrow> c' n = c n"
proof (induction r arbitrary: s c s' c')
  case (Chr k)
  then show ?case by (auto split: list.splits if_splits)
next
  case (Star k)
  then show ?case by auto
next
  case (Plus k)
  then show ?case by (auto split: list.splits if_splits)
next
  case (Opt r)
  then show ?case by auto
next
  case (Seq r1 r2)
  from Seq.prems obtain s1 c1 where "(s1, c1) \<in> set (rmatch r1 s c)" "(s', c') \<in> set (rmatch r2 s1 c1)"
    by auto
  with Seq.IH Seq.prems(2) show ?case by (metis UnCI groups.simps(5))
next
  case (Group m r)
  then show ?case by auto
qed

lemma rmatch_Seq_iff:
  "(s', c') \<in> set (rmatch (Seq r1 r2) s c) \<longleftrightarrow>
     (\<exists>s1 c1. (s1, c1) \<in> set (rmatch r1 s c) \<and> (s', c') \<in> set (rmatch r2 s1 c1))"
  by auto

lemma rmatch_Opt_iff:
  "(s', c') \<in> set (rmatch (Opt r) s c) \<longleftrightarrow> (s', c') \<in> set (rmatch r s c) \<or> (s' = s \<and> c' = c)"
  by auto

lemma rmatch_Group_iff:
  "(s', c') \<in> set (rmatch (Group n r) s c) \<longleftrightarrow>
     (\<exists>c0. (s', c0) \<in> set (rmatch r s c) \<and> c' = c0(n \<mapsto> take (length s - length s') s))"
  by auto

lemma rmatch_Chr_iff:
  "(s', c') \<in> set (rmatch (Chr k) s c) \<longleftrightarrow> (\<exists>x. s = x # s' \<and> cmatch k x \<and> c' = c)"
  by (auto split: list.splits)

lemma plus_digit_sound:
  assumes "(s', c') \<in> set (rmatch (Plus Digit) s c)"
  shows "c' = c \<and> (\<exists>ds. s = ds @ s' \<and> digits ds)"
proof -
  from assms obtain x xs where s: "s = x # xs" and x: "is_digit x" and r: "s' \<in> set (star Digit xs)" and c: "c' = c"
    by (auto split: list.splits if_splits)
  from star_sound [OF r] obtain u where "xs = u @ s'" "list_all (cmatch Digit) u" by blast
  with s x have "s = (x # u) @ s' \<and> digits (x # u)"
    by (simp add: digits_def list_all_iff)
  with c show ?thesis by blast
qed

lemma number_body_sound:
  assumes "(s', c') \<in> set (rmatch (Seq (Opt (Chr (OneOf ''+-'')))
              (Seq (Plus Digit) (Opt (Group m (Seq (Chr (Lit CHR ''.'')) (Plus Digit)))))) s c)"
  shows "\<exists>u. s = u @ s' \<and> decimal_text u"
proof -
  from assms obtain s1 c1 s2 c2 where
    sg: "(s1, c1) \<in> set (rmatch (Opt (Chr (OneOf ''+-''))) s c)" and
    ip: "(s2, c2) \<in> set (rmatch (Plus Digit) s1 c1)" and
    fp: "(s', c') \<in> set (rmatch (Opt (Group m (Seq (Chr (Lit CHR ''.'')) (Plus Digit)))) s2 c2)"
    unfolding rmatch_Seq_iff by blast
  from sg have "s1 = s \<or> (\<exists>x. s = x # s1 \<and> cmatch (OneOf ''+-'') x)"
    unfolding rmatch_Opt_iff rmatch_Chr_iff by blast
  then obtain g where g: "s = g @ s1" "g \<in> {[], ''+'', ''-''}"
  proof
    assume "s1 = s"
    then show ?thesis using that [of "[]"] by simp
  next
    assume "\<exists>x. s = x # s1 \<and> cmatch (OneOf ''+-'') x"
    then obtain x where "s = [x] @ s1" "x = CHR ''+'' \<or> x = CHR ''-''" by auto
    then show ?thesis using that [of "[x]"] by auto
  qed
  from plus_digit_sound [OF ip] obtain ds where ds: "s1 = ds @ s2" "digits ds" by blast
  from fp have "s' = s2 \<or> (\<exists>c3 s3. s2 = CHR ''.'' # s3 \<and> (s', c3) \<in> set (rmatch (Plus Digit) s3 c2))"
    unfolding rmatch_Opt_iff rmatch_Group_iff rmatch_Seq_iff rmatch_Chr_iff
    by (auto simp del: rmatch.simps)
  then obtain fs where fs: "s2 = fs @ s'" "fs = [] \<or> (\<exists>gs. fs = CHR ''.'' # gs \<and> digits gs)"
  proof
    assume "s' = s2"
    then show ?thesis using that [of "[]"] by simp
  next
    assume "\<exists>c3 s3. s2 = CHR ''.'' # s3 \<and> (s', c3) \<in> set (rmatch (Plus Digit) s3 c2)"
    then obtain c3 s3 where a: "s2 = CHR ''.'' # s3" "(s', c3) \<in> set (rmatch (Plus Digit) s3 c2)" by blast
    from plus_digit_sound [OF a(2)] obtain gs where "s3 = gs @ s'" "digits gs" by blast
    with a(1) show ?thesis using that [of "CHR ''.'' # gs"] by simp
  qed
  from g ds fs have "s = (g @ ds @ fs) @ s' \<and> decimal_text (g @ ds @ fs)"
    unfolding decimal_text_def by auto
  then show ?thesis by blast
qed

lemma digit_not_sign: "is_digit c \<Longrightarrow> c \<noteq> CHR ''-'' \<and> c \<noteq> CHR ''+'' \<and> c \<noteq> CHR ''.''"
  by (auto simp: is_digit_def)

lemma unsigned_decimal_digits:
  assumes "digits ds" and "fs = [] \<or> (\<exists>gs. fs = CHR ''.'' # gs \<and> digits gs)"
  shows "\<exists>q. unsigned_decimal (ds @ fs) = Some q"
proof -
  from assms(1) have d: "ds \<noteq> []" "\<forall>x \<in> set ds. is_digit x"
    by (simp_all add: digits_def list_all_iff)
  from assms(2) show ?thesis
  proof
    assume f: "fs = []"
    from d have "takeWhile is_digit ds \<noteq> []" by (cases ds) auto
    with d f show ?thesis by (simp add: unsigned_decimal_def Let_def)
  next
    assume "\<exists>gs. fs = CHR ''.'' # gs \<and> digits gs"
    then obtain gs where g: "fs = CHR ''.'' # gs" "gs \<noteq> []" "list_all is_digit gs"
      by (auto simp: digits_def)
    have nd: "\<not> is_digit CHR ''.''" by (simp add: is_digit_def)
    from d nd have "takeWhile is_digit (ds @ CHR ''.'' # gs) = ds"
                   "dropWhile is_digit (ds @ CHR ''.'' # gs) = CHR ''.'' # gs"
      by (simp_all add: takeWhile_append2 dropWhile_append2)
    with d g show ?thesis by (simp add: unsigned_decimal_def Let_def)
  qed
qed

lemma binary64_not_NaN: "binary64 q \<noteq> NaN"
  by (simp add: binary64_def Let_def)

lemma js_negate_NaN: "js_negate n = NaN \<longleftrightarrow> n = NaN"
  by (cases n) auto

lemma decimal_text_Number: "decimal_text d \<Longrightarrow> Number_of_string d \<noteq> NaN"
proof -
  assume "decimal_text d"
  then obtain sg ds fs where d: "d = sg @ ds @ fs" "sg \<in> {[], ''+'', ''-''}" "digits ds"
    "fs = [] \<or> (\<exists>gs. fs = CHR ''.'' # gs \<and> digits gs)"
    unfolding decimal_text_def by blast
  from unsigned_decimal_digits [OF d(3,4)] obtain q where q: "unsigned_decimal (ds @ fs) = Some q" by blast
  from d(3) obtain x xs where x: "ds = x # xs" "is_digit x"
    by (cases ds) (auto simp: digits_def)
  from d(2) consider "sg = []" | "sg = ''+''" | "sg = ''-''" by auto
  then show ?thesis
  proof cases
    case 1
    with d(1) q x digit_not_sign [OF x(2)] show ?thesis
      by (simp add: Number_of_string_def binary64_not_NaN)
  next
    case 2
    with d(1) q show ?thesis by (simp add: Number_of_string_def binary64_not_NaN)
  next
    case 3
    with d(1) q show ?thesis by (simp add: Number_of_string_def binary64_not_NaN js_negate_NaN)
  qed
qed

lemma number_group_sound:
  assumes "(s', c') \<in> set (rmatch (number_group n) s c)"
  shows "is_number (c' n)"
proof -
  from assms obtain c0 where
    b: "(s', c0) \<in> set (rmatch (Seq (Opt (Chr (OneOf ''+-'')))
              (Seq (Plus Digit) (Opt (Group (n + 1) (Seq (Chr (Lit CHR ''.'')) (Plus Digit)))))) s c)"
    and c': "c' = c0(n \<mapsto> take (length s - length s') s)"
    unfolding number_group_def rmatch_Group_iff by blast
  from number_body_sound [OF b] obtain u where "s = u @ s'" "decimal_text u" by blast
  with c' decimal_text_Number [of u] show ?thesis
    by (auto simp: is_number_def)
qed

lemma all_results_Seq: "all_results r2 P \<Longrightarrow> all_results (Seq r1 r2) P"
  unfolding all_results_def rmatch_Seq_iff by blast

lemma all_results_lits: "all_results r P \<Longrightarrow> all_results (lits cs r) P"
  by (induction cs) (auto intro: all_results_Seq)

lemma all_results_number:
  assumes "n \<notin> groups r"
  shows "all_results (Seq (number_group n) r) (\<lambda>c. is_number (c n))"
  unfolding all_results_def
proof (intro allI impI)
  fix s c s' c' assume "(s', c') \<in> set (rmatch (Seq (number_group n) r) s c)"
  then obtain s1 c1 where a: "(s1, c1) \<in> set (rmatch (number_group n) s c)" "(s', c') \<in> set (rmatch r s1 c1)"
    unfolding rmatch_Seq_iff by blast
  from rmatch_frame [OF a(2) assms] number_group_sound [OF a(1)] show "is_number (c' n)" by simp
qed

lemma groups_lits [simp]: "groups (lits cs r) = groups r"
  by (induction cs) auto

lemma groups_number_group [simp]: "groups (number_group n) = {n, n + 1}"
  by (auto simp: number_group_def)

lemma all_results_number_last: "all_results (Seq (number_group n) (Star k)) (\<lambda>c. is_number (c n))"
  by (rule all_results_number) simp

lemma m114Regex_results:
  "all_results m114Regex (\<lambda>c. is_number (c 1) \<and> is_number (c 3) \<and> is_number (c 5) \<and> is_number (c 7))"
proof -
  have 1: "all_results m114Regex (\<lambda>c. is_number (c 1))"
    unfolding m114Regex_def
    by (intro all_results_Seq all_results_lits all_results_number) simp
  have 3: "all_results m114Regex (\<lambda>c. is_number (c 3))"
    unfolding m114Regex_def
    apply (rule all_results_Seq, rule all_results_lits, rule all_results_Seq, rule all_results_Seq, rule all_results_lits)
    by (rule all_results_number) simp
  have 5: "all_results m114Regex (\<lambda>c. is_number (c 5))"
    unfolding m114Regex_def
    apply (rule all_results_Seq, rule all_results_lits, rule all_results_Seq, rule all_results_Seq, rule all_results_lits)
    apply (rule all_results_Seq, rule all_results_Seq, rule all_results_lits)
    by (rule all_results_number) simp
  have 7: "all_results m114Regex (\<lambda>c. is_number (c 7))"
    unfolding m114Regex_def
    apply (rule all_results_Seq, rule all_results_lits, rule all_results_Seq, rule all_results_Seq, rule all_results_lits)
    apply (rule all_results_Seq, rule all_results_Seq, rule all_results_lits)
    apply (rule all_results_Seq, rule all_results_Seq, rule all_results_lits)
    by (rule all_results_number) simp
  from 1 3 5 7 show ?thesis by (simp add: all_results_def)
qed

lemma js_match_result:
  "js_match r s = Some cap \<Longrightarrow> \<exists>s0 s'. (s', cap) \<in> set (rmatch r s0 Map.empty)"
proof (induction s)
  case Nil
  then obtain p ps where "rmatch r [] Map.empty = p # ps" "snd p = cap"
    by (cases "rmatch r [] Map.empty") (auto split: prod.splits)
  then have "(fst p, cap) \<in> set (rmatch r [] Map.empty)" by (cases p) simp
  then show ?case by blast
next
  case (Cons x xs)
  show ?case
  proof (cases "rmatch r (x # xs) Map.empty")
    case Nil
    with Cons show ?thesis by simp
  next
    case (Cons p ps)
    with Cons.prems have "(fst p, cap) \<in> set (rmatch r (x # xs) Map.empty)"
      by (cases p) auto
    then show ?thesis by blast
  qed
qed

lemma m114_match_numbers:
  assumes "js_match m114Regex data = Some parsed"
  shows "is_number (parsed 1) \<and> is_number (parsed 3) \<and> is_number (parsed 5) \<and> is_number (parsed 7)"
  using js_match_result [OF assms] m114Regex_results by (auto simp: all_results_def)

text \<open>
  C5. For every response line that matches the position expression, the processing
  function stores as the paused position the parsed X, Y and Z, each minus its configured
  offset, and the parsed E with no offset. Each parsed field is the text of a decimal
  numeral and reads as a number; where it and the offset are finite, what is stored is the
  double nearest to their difference. For the line \<^verbatim>\<open>X:10.5 Y:-2.0 Z:5.0 E:100.25\<close> and
  offsets zero the stored position is x 10.5, y -2.0, z 5.0, e 100.25; for a line with
  \<^verbatim>\<open>X:+1.5 Y:-2.25Z:7 E:0.5\<close> and offsets 0.5, -0.25 and 2 it is x 1, y -2, z 5, e 0.5.
\<close>

theorem m114_processData_stores_position:
  assumes "js_match m114Regex data = Some parsed"
  shows "m114_processData data self =
           Inr (True, self\<lparr>pausedPosition := Some \<lparr>
             pos_x = Number (js_minus (Number_of_capture (parsed 1)) (offsetX (settings self))),
             pos_y = Number (js_minus (Number_of_capture (parsed 3)) (offsetY (settings self))),
             pos_z = Number (js_minus (Number_of_capture (parsed 5)) (offsetZ (settings self))),
             pos_e = Number (Number_of_capture (parsed 7))\<rparr>\<rparr>)
         \<and> is_number (parsed 1) \<and> is_number (parsed 3) \<and> is_number (parsed 5) \<and> is_number (parsed 7)
         \<and> (\<forall>a b. Number_of_capture (parsed 1) = Finite a \<and> offsetX (settings self) = Finite b \<longrightarrow>
               map_option pos_x (stored_position data self) =
                 Some (Number (if a = b then Finite 0 else binary64 (a - b))))
         \<and> (\<forall>a b. Number_of_capture (parsed 3) = Finite a \<and> offsetY (settings self) = Finite b \<longrightarrow>
               map_option pos_y (stored_position data self) =
                 Some (Number (if a = b then Finite 0 else binary64 (a - b))))
         \<and> (\<forall>a b. Number_of_capture (parsed 5) = Finite a \<and> offsetZ (settings self) = Finite b \<longrightarrow>
               map_option pos_z (stored_position data self) =
                 Some (Number (if a = b then Finite 0 else binary64 (a - b))))
         \<and> map_option pos_e (stored_position data self) = Some (Number (Number_of_capture (parsed 7)))
         \<and> (offsetX (settings self) = Finite 0 \<and> offsetY (settings self) = Finite 0
              \<and> offsetZ (settings self) = Finite 0 \<longrightarrow>
            stored_position ''X:10.5 Y:-2.0 Z:5.0 E:100.25'' self =
              Some \<lparr>pos_x = Number (Finite (21 / 2)), pos_y = Number (Finite (- 2)),
                    pos_z = Number (Finite 5), pos_e = Number (Finite (401 / 4))\<rparr>)
         \<and> (offsetX (settings self) = Finite (1 / 2) \<and> offsetY (settings self) = Finite (- 1 / 4)
              \<and> offsetZ (settings self) = Finite 2 \<longrightarrow>
            stored_position ''ok C: X:+1.5 Y:-2.25Z:7 E:0.5 Count X: 3'' self =
              Some \<lparr>pos_x = Number (Finite 1), pos_y = Number (Finite (- 2)),
                    pos_z = Number (Finite 5), pos_e = Number (Finite (1 / 2))\<rparr>)"
proof -
  have general: "m114_processData data self =
           Inr (True, self\<lparr>pausedPosition := Some \<lparr>
             pos_x = Number (js_minus (Number_of_capture (parsed 1)) (offsetX (settings self))),
             pos_y = Number (js_minus (Number_of_capture (parsed 3)) (offsetY (settings self))),
             pos_z = Number (js_minus (Number_of_capture (parsed 5)) (offsetZ (settings self))),
             pos_e = Number (Number_of_capture (parsed 7))\<rparr>\<rparr>)"
    using assms by (simp add: m114_processData_def)
  have zero: "stored_position ''X:10.5 Y:-2.0 Z:5.0 E:100.25'' self =
              Some \<lparr>pos_x = Number (Finite (21 / 2)), pos_y = Number (Finite (- 2)),
                    pos_z = Number (Finite 5), pos_e = Number (Finite (401 / 4))\<rparr>"
    if "offsetX (settings self) = Finite 0" "offsetY (settings self) = Finite 0"
       "offsetZ (settings self) = Finite 0"
    using that by (simp add: stored_position_def m114_processData_def regex_eval number_eval)
  have shifted: "stored_position ''ok C: X:+1.5 Y:-2.25Z:7 E:0.5 Count X: 3'' self =
              Some \<lparr>pos_x = Number (Finite 1), pos_y = Number (Finite (- 2)),
                    pos_z = Number (Finite 5), pos_e = Number (Finite (1 / 2))\<rparr>"
    if "offsetX (settings self) = Finite (1 / 2)" "offsetY (settings self) = Finite (- 1 / 4)"
       "offsetZ (settings self) = Finite 2"
    using that by (simp add: stored_position_def m114_processData_def regex_eval number_eval)
  from general m114_match_numbers [OF assms] zero shifted show ?thesis
    by (simp add: stored_position_def)
qed

theorem m114_processData_stores_position_witness:
  "js_match m114Regex position_line \<noteq> None
   \<and> stored_position position_line (example_bot ''paused'' None []) =
       Some \<lparr>pos_x = Number (Finite (21 / 2)), pos_y = Number (Finite (- 2)),
             pos_z = Number (Finite 5), pos_e = Number (Finite (401 / 4))\<rparr>
   \<and> js_match m114Regex noisy_position_line \<noteq> None
   \<and> stored_position noisy_position_line offset_bot =
       Some \<lparr>pos_x = Number (Finite 1), pos_y = Number (Finite (- 2)),
             pos_z = Number (Finite 5), pos_e = Number (Finite (1 / 2))\<rparr>"
proof -
  obtain parsed where h: "js_match m114Regex position_line = Some parsed"
    using position_line_match by blast
  have n: "js_match m114Regex noisy_position_line \<noteq> None"
    by (simp add: noisy_position_line_def regex_eval)
  have o: "offsetX (settings (example_bot ''paused'' None [])) = Finite 0
           \<and> offsetY (settings (example_bot ''paused'' None [])) = Finite 0
           \<and> offsetZ (settings (example_bot ''paused'' None [])) = Finite 0"
    by (simp add: example_bot_def)
  have o': "offsetX (settings offset_bot) = Finite (1 / 2)
           \<and> offsetY (settings offset_bot) = Finite (- 1 / 4)
           \<and> offsetZ (settings offset_bot) = Finite 2"
    by (simp add: offset_bot_def)
  from m114_processData_stores_position [OF h, of "example_bot ''paused'' None []"] o
  have 1: "stored_position ''X:10.5 Y:-2.0 Z:5.0 E:100.25'' (example_bot ''paused'' None []) =
          Some \<lparr>pos_x = Number (Finite (21 / 2)), pos_y = Number (Finite (- 2)),
                pos_z = Number (Finite 5), pos_e = Number (Finite (401 / 4))\<rparr>"
    by blast
  from m114_processData_stores_position [OF h, of offset_bot] o'
  have 2: "stored_position ''ok C: X:+1.5 Y:-2.25Z:7 E:0.5 Count X: 3'' offset_bot =
          Some \<lparr>pos_x = Number (Finite 1), pos_y = Number (Finite (- 2)),
                pos_z = Number (Finite 5), pos_e = Number (Finite (1 / 2))\<rparr>"
    by blast
  from 1 2 n position_line_match show ?thesis
    unfolding position_line_def noisy_position_line_def by blast
qed

text \<open>
  C6, as stated, does not hold: on the specification's example line the processing function
  returns true, not false.
\<close>
theorem m114_processData_result_counterexample:
  "map_sum id fst (m114_processData ''X:10.5 Y:-2.0 Z:5.0 E:100.25'' (example_bot ''paused'' None []))
     = Inr True"
  by (simp add: m114_processData_def regex_eval)

text \<open>
  C6, as the code has it. Once a well-formed position line is parsed the processing
  function returns true; under the queue convention that true means keep waiting, the
  entry stays in flight after the line. On no line at all does the function return false.
\<close>
theorem m114_processData_returns_true:
  assumes "js_match m114Regex data \<noteq> None"
  shows "map_sum id fst (m114_processData data self) = Inr True
       \<and> map_sum id fst (m114_processData other self) \<noteq> Inr False
       \<and> (inflight s = Some c \<and> processData c = Some m114_processor \<longrightarrow>
            inflight (step True (Line data) s) = Some c)"
  using assms
  by (auto simp: m114_processData_def split: option.splits)

theorem m114_processData_returns_true_witness:
  "js_match m114Regex position_line \<noteq> None
   \<and> map_sum id fst (m114_processData position_line awaiting_position) = Inr True
   \<and> inflight (step True (Line position_line) awaiting_position) = Some m114Command"
proof -
  have i: "inflight awaiting_position = Some m114Command \<and> processData m114Command = Some m114_processor"
    by (simp add: awaiting_position_def m114Command_def)
  from m114_processData_returns_true
         [OF position_line_match, where self = awaiting_position and s = awaiting_position
            and c = m114Command]
       i position_line_match
  show ?thesis by simp
qed

text \<open>
  C7. For every response line that does not match the position expression, the processing
  function fails: it raises the exception of reading a group of the \<^verbatim>\<open>null\<close> match, and
  nothing is stored. In the queue the entry is abandoned and the paused position of the
  device is what it was, so no undefined or NaN value reaches it.
\<close>
theorem m114_processData_no_match:
  assumes "js_match m114Regex data = None"
  shows "m114_processData data self = Inl (TypeError ''Cannot read property 1 of null'')
       \<and> (inflight s = Some c \<and> processData c = Some m114_processor \<longrightarrow>
            pausedPosition (step keep (Line data) s) = pausedPosition s
            \<and> inflight (step keep (Line data) s) = None
            \<and> history (step keep (Line data) s) = history s @ [Abandoned c])"
  using assms
  by (auto simp: m114_processData_def abandon_def)

theorem m114_processData_no_match_witness:
  "js_match m114Regex ''ok'' = None
   \<and> m114_processData ''ok'' awaiting_position = Inl (TypeError ''Cannot read property 1 of null'')
   \<and> pausedPosition (step True (Line ''ok'') awaiting_position) = pausedPosition awaiting_position
   \<and> inflight (step True (Line ''ok'') awaiting_position) = None
   \<and> history (step True (Line ''ok'') awaiting_position) = [Abandoned m114Command]"
proof -
  have n: "js_match m114Regex ''ok'' = None"
    by (simp add: regex_eval)
  have i: "inflight awaiting_position = Some m114Command \<and> processData m114Command = Some m114_processor"
    by (simp add: awaiting_position_def m114Command_def)
  have h: "history awaiting_position = []"
    by (simp add: awaiting_position_def example_bot_def)
  from m114_processData_no_match [OF n, of awaiting_position awaiting_position m114Command True] i
  have "m114_processData ''ok'' awaiting_position = Inl (TypeError ''Cannot read property 1 of null'')
        \<and> pausedPosition (step True (Line ''ok'') awaiting_position) = pausedPosition awaiting_position
        \<and> inflight (step True (Line ''ok'') awaiting_position) = None
        \<and> history (step True (Line ''ok'') awaiting_position) = history awaiting_position @ [Abandoned m114Command]"
    by blast
  then show ?thesis
    unfolding h using n by (simp only: append_Nil simp_thms)
qed

subsection \<open>The lift instruction\<close>

lemmas pause_eval = paused_example_def pause_def pause_try_def example_bot_def example_job_def
  transient_botFsmDefinitions_def botFsmDefinitions_def
  prependCommands_def queueCommands_def jobPauseCommand_def pauseMovementCommand_def markerCommand_def
  queued_move_def pauseEndCommand_def undefined_position_def lift_code_def bot_fire_def botFsmEvents_def
  getBot_def bot_debug_def fsm_target_def

lemmas drain_eval = start_entry_def finish_def abandon_def run_optional_def log_exception_def
  Job_pause_def job_fire_def job_catch_def jobFsmDefinitions_def onenterstate_def stopwatch_stop_def
  m114_processData_def

text \<open>
  C4, evaluated on the code. The text of the lift instruction is fixed when \<^verbatim>\<open>pause\<close>
  builds the cascade, from the local position whose fields are all undefined: it is
  \<^verbatim>\<open>G1 ZNaN\<close>, whatever position is captured later. In the specification's example the
  position report is parsed (z is 5) and the next instruction sent is still \<^verbatim>\<open>G1 ZNaN\<close>,
  under either reading of the processing function's result (with \<open>keep = True\<close> the
  telemetry entry ends when the following \<^verbatim>\<open>ok\<close> line fails to parse).
\<close>
theorem lift_instruction_is_NaN:
  "code (liftCommand shw) = Some ''G1 ZNaN''
   \<and> pos_z (the (pausedPosition (drain False [Next, Next, Line ''ok'', Next, Line position_line]
         (paused_example botFsmDefinitions ''idle'')))) = Number (Finite 5)
   \<and> last (history (drain False [Next, Next, Line ''ok'', Next, Line position_line, Next]
         (paused_example botFsmDefinitions ''idle''))) = Send ''G1 ZNaN''
   \<and> pos_z (the (pausedPosition (drain True [Next, Next, Line ''ok'', Next, Line position_line, Line ''ok'']
         (paused_example botFsmDefinitions ''idle'')))) = Number (Finite 5)
   \<and> last (history (drain True [Next, Next, Line ''ok'', Next, Line position_line, Line ''ok'', Next]
         (paused_example botFsmDefinitions ''idle''))) = Send ''G1 ZNaN''"
  by (simp add: liftCommand_def position_line_def pause_eval drain_eval regex_eval number_eval)

subsection \<open>The order of the pause cascade\<close>

lemma liftCommand_eq: "liftCommand shw = Command (Some ''G1 ZNaN'') (Some lift_preCallback) None None"
  by (simp add: liftCommand_def pauseMovementCommand_def lift_code_def js_plus_def undefined_position_def)

lemma movement_eq:
  "pauseMovementCommand shw undefined_position =
     [Command (Some ''M400'') None None None, m114Command, liftCommand shw, closingCommand]"
  by (simp add: liftCommand_eq pauseMovementCommand_def lift_code_def js_plus_def undefined_position_def
        m114Command_def closingCommand_def)

lemma lift_ended_append: "lift_ended shw h \<Longrightarrow> lift_ended shw (h @ h')"
  by (auto simp: lift_ended_def)

lemma fired_after_lift_snoc:
  "fired_after_lift shw (h @ [a]) \<longleftrightarrow>
     fired_after_lift shw h \<and> (a = Fire ''pauseDone'' \<longrightarrow> lift_ended shw h)"
proof -
  have "(\<forall>i < Suc (length h). P i) \<longleftrightarrow> (\<forall>i < length h. P i) \<and> P (length h)" for P
    by (auto simp: less_Suc_eq)
  then show ?thesis
    by (simp add: fired_after_lift_def nth_append cong: conj_cong)
qed

lemma fired_after_lift_snoc2:
  "fired_after_lift shw (h @ [a, b]) \<longleftrightarrow>
     fired_after_lift shw (h @ [a]) \<and> (b = Fire ''pauseDone'' \<longrightarrow> lift_ended shw (h @ [a]))"
  using fired_after_lift_snoc [of shw "h @ [a]" b] by simp

lemmas entry_defs = plain_def m114Command_def liftCommand_eq closingCommand_def pauseEndCommand_def
  jobPauseCommand_def markerCommand_def

lemma pending_simps [simp]:
  "pending (s\<lparr>inflight := None\<rparr>) = queue s"
  "pending (s\<lparr>inflight := Some c\<rparr>) = c # queue s"
  by (simp_all add: pending_def)

lemmas inv_simps = drain_inv_def cascade_entry_def finish_def abandon_def run_optional_def
  log_exception_def prependCommands_def bot_fire_def bot_debug_def Let_def movement_eq
  fired_after_lift_snoc fired_after_lift_snoc2 lift_ended_def entry_defs pending_def

lemma finish_inv:
  assumes "drain_inv shw (c # queue s) (history s)"
  shows "drain_inv shw (pending (finish c s)) (history (finish c s))"
proof -
  from assms have ce: "cascade_entry shw c" by (simp add: drain_inv_def)
  then consider (plain) "plain c" | (m114) "c = m114Command" | (lift) "c = liftCommand shw"
    | (closing) "c = closingCommand" | (pauseEnd) "c = pauseEndCommand"
    | (jobPause) "c = jobPauseCommand (pauseMovementCommand shw undefined_position)"
    | (marker) "c = markerCommand"
    by (auto simp: cascade_entry_def)
  then show ?thesis
  proof cases
    case plain
    with assms show ?thesis
      by (auto simp: inv_simps)
  next
    case m114
    with assms show ?thesis
      by (auto simp: inv_simps)
  next
    case lift
    with assms show ?thesis
      by (auto simp: inv_simps)
  next
    case closing
    with assms show ?thesis
      by (auto simp: inv_simps)
  next
    case pauseEnd
    with assms show ?thesis
      by (auto simp: inv_simps split: option.splits)
  next
    case jobPause
    with assms show ?thesis
      by (auto simp: inv_simps split: option.splits sum.splits)
  next
    case marker
    with assms show ?thesis
      by (auto simp: inv_simps split: option.splits)
  qed
qed

lemma abandon_inv:
  assumes "drain_inv shw (c # queue s) (history s)"
  shows "drain_inv shw (pending (abandon c ex s)) (history (abandon c ex s))"
  using assms by (auto simp: inv_simps)

lemma pre_callback_frame:
  assumes "cascade_entry shw c"
  shows "queue (run_optional (preCallback c) s) = queue s
       \<and> history (run_optional (preCallback c) s) = history s
       \<and> inflight (run_optional (preCallback c) s) = inflight s"
  using assms by (auto simp: cascade_entry_def run_optional_def log_exception_def bot_debug_def entry_defs)

lemma drain_inv_Send: "drain_inv shw L h \<Longrightarrow> drain_inv shw L (h @ [Send t])"
  by (auto simp: drain_inv_def fired_after_lift_snoc lift_ended_def)

lemma run_processor_frame:
  assumes "run_processor p d s = Inr (r, s')"
  shows "queue s' = queue s \<and> history s' = history s \<and> inflight s' = inflight s"
  using assms by (cases p) (auto simp: m114_processData_def split: option.splits)

lemma start_entry_inv:
  assumes "drain_inv shw (c # queue s) (history s)"
  shows "drain_inv shw (pending (start_entry c s)) (history (start_entry c s))"
proof -
  from assms have ce: "cascade_entry shw c" by (simp add: drain_inv_def)
  define s1 where "s1 = run_optional (preCallback c) s"
  define s2 where "s2 = (case code c of None \<Rightarrow> s1 | Some t \<Rightarrow> s1\<lparr>history := history s1 @ [Send t]\<rparr>)"
  have f1: "queue s1 = queue s" "history s1 = history s"
    using pre_callback_frame [OF ce, of s] by (simp_all add: s1_def)
  have q2: "queue s2 = queue s"
    using f1 by (simp add: s2_def split: option.splits)
  have i2: "drain_inv shw (c # queue s2) (history s2)"
    using assms f1 drain_inv_Send [of shw "c # queue s" "history s"]
    by (auto simp: s2_def split: option.splits)
  have "start_entry c s = (if code c = None \<and> processData c = None then finish c s2
                           else s2\<lparr>inflight := Some c\<rparr>)"
    unfolding start_entry_def s1_def s2_def Let_def by (rule refl)
  then show ?thesis
    using finish_inv [OF i2] i2 by simp
qed

lemma step_inv:
  assumes "drain_inv shw (pending s) (history s)"
  shows "drain_inv shw (pending (step keep e s)) (history (step keep e s))"
proof (cases e)
  case Next
  show ?thesis
  proof (cases "inflight s")
    case (Some c)
    with Next assms show ?thesis by simp
  next
    case None
    show ?thesis
    proof (cases "queue s")
      case Nil
      with Next None assms show ?thesis by simp
    next
      case (Cons c q)
      with None assms have "drain_inv shw (c # queue (s\<lparr>queue := q\<rparr>)) (history (s\<lparr>queue := q\<rparr>))"
        by (simp add: pending_def)
      from start_entry_inv [OF this] Next None Cons show ?thesis by simp
    qed
  qed
next
  case (Line d)
  show ?thesis
  proof (cases "inflight s")
    case None
    with Line assms show ?thesis by simp
  next
    case (Some c)
    with assms have i: "drain_inv shw (c # queue s) (history s)"
      by (simp add: pending_def)
    show ?thesis
    proof (cases "processData c")
      case None
      with Line Some finish_inv [OF i] show ?thesis by simp
    next
      case p: (Some p)
      show ?thesis
      proof (cases "run_processor p d s")
        case (Inl ex)
        with Line Some p abandon_inv [OF i] show ?thesis by simp
      next
        case (Inr rs)
        obtain r s' where rs: "rs = (r, s')" by (cases rs)
        from run_processor_frame [of p d s r s'] Inr rs
        have f: "queue s' = queue s" "history s' = history s" "inflight s' = inflight s"
          by simp_all
        with i have i': "drain_inv shw (c # queue s') (history s')" by simp
        show ?thesis
        proof (cases "r = keep")
          case True
          with Line Some p Inr rs f assms show ?thesis by (simp add: pending_def)
        next
          case False
          with Line Some p Inr rs finish_inv [OF i'] show ?thesis by simp
        qed
      qed
    qed
  qed
next
  case TransportError
  show ?thesis
  proof (cases "inflight s")
    case None
    with TransportError assms show ?thesis by simp
  next
    case (Some c)
    with assms have "drain_inv shw (c # queue s) (history s)"
      by (simp add: pending_def)
    from abandon_inv [OF this] TransportError Some show ?thesis by simp
  qed
qed

lemma drain_preserves_inv:
  "drain_inv shw (pending s) (history s) \<Longrightarrow>
   drain_inv shw (pending (drain keep es s)) (history (drain keep es s))"
  by (induction es arbitrary: s) (simp_all add: step_inv)

lemma run_callback_history:
  "a \<in> set (history (snd (run_callback cb s))) \<Longrightarrow> a \<in> set (history s) \<or> benign a"
  by (cases cb)
     (auto simp: bot_fire_def bot_debug_def Let_def benign_def split: option.splits sum.splits)

lemma run_optional_history:
  assumes "a \<in> set (history (run_optional cb s))"
  shows "a \<in> set (history s) \<or> benign a"
proof (cases cb)
  case None
  with assms show ?thesis by (simp add: run_optional_def)
next
  case (Some f)
  obtain ex s' where r: "run_callback f s = (ex, s')" by (cases "run_callback f s")
  with assms Some have "a \<in> set (history s')"
    by (cases ex) (simp_all add: run_optional_def log_exception_def)
  with r run_callback_history [of a f s] show ?thesis by simp
qed

lemma finish_history:
  "a \<in> set (history (finish c s)) \<Longrightarrow> a \<in> set (history s) \<or> benign a"
  by (auto simp: finish_def benign_def dest!: run_optional_history)

lemma start_entry_history:
  "a \<in> set (history (start_entry c s)) \<Longrightarrow> a \<in> set (history s) \<or> benign a"
  by (auto simp: start_entry_def Let_def benign_def split: if_splits option.splits
        dest!: finish_history run_optional_history)

lemma step_history:
  assumes "e \<noteq> TransportError" and "a \<in> set (history (step keep e s))"
  shows "a \<in> set (history s) \<or> benign a"
proof (cases e)
  case Next
  with assms(2) show ?thesis
    by (auto split: option.splits list.splits dest!: start_entry_history)
next
  case (Line d)
  with assms(2) show ?thesis
    by (auto simp: abandon_def benign_def split: option.splits sum.splits if_splits
          dest!: finish_history run_processor_frame)
next
  case TransportError
  with assms(1) show ?thesis by simp
qed

lemma drain_history:
  "TransportError \<notin> set es \<Longrightarrow> a \<in> set (history (drain keep es s)) \<Longrightarrow>
   a \<in> set (history s) \<or> benign a"
proof (induction es arbitrary: s)
  case Nil
  then show ?case by simp
next
  case (Cons e es)
  then have "a \<in> set (history (step keep e s)) \<or> benign a" by simp
  with Cons.prems step_history [of e a keep s] show ?case by auto
qed

lemma pause_accepted:
  assumes "pause_precondition_error defs self = None"
  shows "queue (fst (pause shw defs self)) =
           jobPauseCommand (pauseMovementCommand shw undefined_position) # queue self
             @ (if transient self then [markerCommand] else [])"
    and "inflight (fst (pause shw defs self)) = inflight self"
    and "history (fst (pause shw defs self)) =
           history self @ (if transient self then [] else [Fire ''pause''])"
  using assms
  by (auto simp: pause_precondition_error_def pause_def pause_try_def Let_def transient_def
        prependCommands_def queueCommands_def bot_fire_def bot_debug_def
        split: option.splits if_splits)

lemma pause_establishes_inv:
  assumes "pause_precondition_error defs self = None"
    and "\<forall>c \<in> set (pending self). plain c"
    and "history self = []"
  shows "drain_inv shw (pending (fst (pause shw defs self))) (history (fst (pause shw defs self)))"
proof -
  let ?A = "jobPauseCommand (pauseMovementCommand shw undefined_position)"
  have p: "set (pending (fst (pause shw defs self))) \<subseteq> insert ?A (insert markerCommand (set (pending self)))"
    using pause_accepted [OF assms(1), of shw] by (auto simp: pending_def split: option.splits)
  have h: "history (fst (pause shw defs self)) = [] \<or> history (fst (pause shw defs self)) = [Fire ''pause'']"
    using pause_accepted(3) [OF assms(1), of shw] assms(3) by simp
  have g: "guarded l closingCommand L" if "\<forall>c \<in> set L. c \<noteq> closingCommand" for l L
    using that by (induction L) auto
  have n: "c \<noteq> closingCommand \<and> c \<noteq> pauseEndCommand \<and> c \<noteq> m114Command \<and> c \<noteq> liftCommand shw
           \<and> cascade_entry shw c"
    if "c \<in> set (pending (fst (pause shw defs self)))" for c
  proof -
    from that p have "c = ?A \<or> c = markerCommand \<or> c \<in> set (pending self)" by blast
    with assms(2) have "c = ?A \<or> c = markerCommand \<or> plain c" by blast
    then show ?thesis
      by (auto simp: cascade_entry_def entry_defs)
  qed
  have f: "fired_after_lift shw (history (fst (pause shw defs self)))"
    using h by (auto simp: fired_after_lift_def)
  show ?thesis
    unfolding drain_inv_def using n g f by blast
qed

text \<open>
  C1, as stated, does not hold on the queue of the specification: after an accepted pause
  request, in the run in which the connection reports a transport error while the lift
  entry is in flight, the entry is abandoned, the queue proceeds, and pauseDone is fired
  although the lift entry never completed (shown for either reading of the processing
  function's result).
\<close>

theorem pauseDone_without_lift_counterexample:
  "pause_precondition_error botFsmDefinitions
      (example_bot ''idle'' (Some (example_job ''running'')) [queued_move]) = None
   \<and> history (drain False transport_error_run (paused_example botFsmDefinitions ''idle'')) ! 10
       = Fire ''pauseDone''
   \<and> history (drain False transport_error_run (paused_example botFsmDefinitions ''idle'')) ! 7
       = Abandoned (liftCommand example_shw)
   \<and> Completed (liftCommand example_shw)
       \<notin> set (history (drain False transport_error_run (paused_example botFsmDefinitions ''idle'')))
   \<and> history (drain True transport_error_run_keep (paused_example botFsmDefinitions ''idle'')) ! 10
       = Fire ''pauseDone''
   \<and> history (drain True transport_error_run_keep (paused_example botFsmDefinitions ''idle'')) ! 7
       = Abandoned (liftCommand example_shw)
   \<and> Completed (liftCommand example_shw)
       \<notin> set (history (drain True transport_error_run_keep (paused_example botFsmDefinitions ''idle'')))"
  by (simp add: transport_error_run_def transport_error_run_keep_def position_line_def
        pause_precondition_error_def liftCommand_eq pause_eval drain_eval regex_eval number_eval)

text \<open>
  C1, as the queue has it. After an accepted pause request on a device whose waiting
  entries are plain, the request itself has queued only the first stage (and, in a
  transient state, the marker). In every run of the drain loop from there: an entry of the
  second stage (telemetry, lift, closing) is waiting only if the first stage's entry has
  completed, which is when its post-callback queued them; the final entry is waiting only
  if the closing entry has completed; every firing of pauseDone on the device state
  machine comes after the end of the lift entry, which is its completion or, after a
  transport error, its abandonment by the queue; and in a run with no transport error it
  comes after the completion of the lift entry.
\<close>

theorem pause_cascade_order:
  assumes "pause_precondition_error defs self = None"
    and "\<forall>c \<in> set (pending self). plain c"
    and "history self = []"
  shows "queue (fst (pause shw defs self)) =
           jobPauseCommand (pauseMovementCommand shw undefined_position) # queue self
             @ (if transient self then [markerCommand] else [])
       \<and> (\<forall>c \<in> set (pending (drain keep es (fst (pause shw defs self)))).
            c \<in> {m114Command, liftCommand shw, closingCommand} \<longrightarrow>
              Completed (jobPauseCommand (pauseMovementCommand shw undefined_position))
                \<in> set (history (drain keep es (fst (pause shw defs self)))))
       \<and> (pauseEndCommand \<in> set (pending (drain keep es (fst (pause shw defs self)))) \<longrightarrow>
            Completed closingCommand \<in> set (history (drain keep es (fst (pause shw defs self)))))
       \<and> fired_after_lift shw (history (drain keep es (fst (pause shw defs self))))
       \<and> (TransportError \<notin> set es \<longrightarrow>
            only_after (Completed (liftCommand shw)) ''pauseDone''
              (history (drain keep es (fst (pause shw defs self)))))"
proof -
  let ?s0 = "fst (pause shw defs self)"
  let ?h = "history (drain keep es ?s0)"
  have inv: "drain_inv shw (pending (drain keep es ?s0)) ?h"
    using pause_establishes_inv [OF assms] by (rule drain_preserves_inv)
  have h0: "history ?s0 = [] \<or> history ?s0 = [Fire ''pause'']"
    using pause_accepted(3) [OF assms(1), of shw] assms(3) by simp
  have "only_after (Completed (liftCommand shw)) ''pauseDone'' ?h" if te: "TransportError \<notin> set es"
    unfolding only_after_def
  proof (intro allI impI)
    fix i assume i: "i < length ?h" and fi: "?h ! i = Fire ''pauseDone''"
    from inv i fi have "lift_ended shw (take i ?h)"
      by (simp add: drain_inv_def fired_after_lift_def)
    moreover have "Abandoned (liftCommand shw) \<notin> set (take i ?h)"
    proof
      assume "Abandoned (liftCommand shw) \<in> set (take i ?h)"
      then have "Abandoned (liftCommand shw) \<in> set ?h" by (rule in_set_takeD)
      from drain_history [OF te this] h0 show False
        by (auto simp: benign_def liftCommand_eq)
    qed
    ultimately show "Completed (liftCommand shw) \<in> set (take i ?h)"
      by (simp add: lift_ended_def)
  qed
  with inv pause_accepted(1) [OF assms(1), of shw] show ?thesis
    by (simp add: drain_inv_def)
qed

theorem pause_cascade_order_witness:
  "pause_precondition_error botFsmDefinitions
      (example_bot ''idle'' (Some (example_job ''running'')) [queued_move]) = None
   \<and> list_all plain (pending (example_bot ''idle'' (Some (example_job ''running'')) [queued_move]))
   \<and> history (example_bot ''idle'' (Some (example_job ''running'')) [queued_move]) = []
   \<and> TransportError \<notin> set pause_run
   \<and> history (drain False pause_run (paused_example botFsmDefinitions ''idle'')) ! 10 = Fire ''pauseDone''
   \<and> Completed (liftCommand example_shw)
        \<in> set (take 10 (history (drain False pause_run (paused_example botFsmDefinitions ''idle''))))"
proof -
  let ?b = "example_bot ''idle'' (Some (example_job ''running'')) [queued_move]"
  let ?h = "history (drain False pause_run (paused_example botFsmDefinitions ''idle''))"
  have a: "pause_precondition_error botFsmDefinitions ?b = None"
    by (simp add: pause_precondition_error_def example_bot_def example_job_def botFsmDefinitions_def)
  have b: "\<forall>c \<in> set (pending ?b). plain c"
    by (simp add: pending_def example_bot_def queued_move_def plain_def)
  have c: "history ?b = []"
    by (simp add: example_bot_def)
  have t: "TransportError \<notin> set pause_run"
    by (simp add: pause_run_def)
  have f: "10 < length ?h \<and> ?h ! 10 = Fire ''pauseDone''"
    by (simp add: pause_run_def position_line_def pause_eval drain_eval regex_eval number_eval)
  from pause_cascade_order [OF a b c, of example_shw False pause_run] t
  have "only_after (Completed (liftCommand example_shw)) ''pauseDone'' ?h"
    by (simp add: paused_example_def)
  with f have "Completed (liftCommand example_shw) \<in> set (take 10 ?h)"
    unfolding only_after_def by blast
  with a b c t f show ?thesis
    by (simp add: list_all_iff)
qed

subsection \<open>Pause from a transient state\<close>

text \<open>
  C2, evaluated on the code. With the transient states pauseable and the device in state
  blocking with a move queued, \<^verbatim>\<open>pause\<close> puts the first stage at the head of the queue and
  only the marker behind the move. The first two turns of the drain loop then pause the job
  and send the first instruction of the second stage while the move is still waiting and
  the device is still in state blocking; over the whole run pauseDone is fired before the
  queued move is sent, and the marker fires pause last.
\<close>
theorem pause_transient_prepends:
  "queue (paused_example transient_botFsmDefinitions ''blocking'') =
     [jobPauseCommand (pauseMovementCommand example_shw undefined_position), queued_move, markerCommand]
   \<and> history (drain True [Next, Next] (paused_example transient_botFsmDefinitions ''blocking'')) =
       [Completed (jobPauseCommand (pauseMovementCommand example_shw undefined_position)), Send ''M400'']
   \<and> current (job_fsm (the (currentJob (drain True [Next, Next]
         (paused_example transient_botFsmDefinitions ''blocking''))))) = ''paused''
   \<and> current (bot_fsm (drain True [Next, Next]
         (paused_example transient_botFsmDefinitions ''blocking''))) = ''blocking''
   \<and> filter (\<lambda>a. a \<in> {Fire ''pause'', Fire ''pauseDone'', Send ''M400'', Send ''G1 X1''})
         (history (drain True transient_run (paused_example transient_botFsmDefinitions ''blocking'')))
       = [Send ''M400'', Fire ''pauseDone'', Send ''G1 X1'', Fire ''pause'']"
  by (simp add: pause_eval drain_eval transient_run_def position_line_def regex_eval number_eval)

end
